theory Spec2Isabelle
  imports Complex_Main "HOL-Library.AList"
begin

section \<open>Data model\<close>

text \<open>
  JSON values as the transport hands them to the server. An object is the list of its
  properties (keys distinct, as a decoded object has them); \<open>None\<close> of type
  \<open>json option\<close> stands for JavaScript's \<open>undefined\<close>.
\<close>

datatype json =
    JNull
  | JBool bool
  | JNum real
  | JStr string
  | JArr "json list"
  | JObj "(string \<times> json) list"

type_synonym metadata = "(string \<times> json) list"

type_synonym timestamp = string

text \<open>
  A property of an object: it may be missing, be there with the value \<open>undefined\<close>,
  hold \<open>null\<close>, or hold a value (\<open>message?: Message | null\<close>,
  \<open>lastChunk?: boolean | null\<close>, \<open>index?: number\<close>). Reading a missing property
  gives \<open>undefined\<close> as well; an object spread tells the two apart: it copies a property
  that is there, whatever it holds, and leaves alone one that is missing.
\<close>

datatype 'a nullable = Absent | Undefined | Null | Present 'a

text \<open>\<open>v !== undefined\<close> for the value read from a property.\<close>

definition defined :: "'a nullable \<Rightarrow> bool" where
  "defined v = (case v of Absent \<Rightarrow> False | Undefined \<Rightarrow> False | _ \<Rightarrow> True)"

text \<open>\<open>JSON.stringify\<close> leaves out a property that holds \<open>undefined\<close>.\<close>

definition dropUndefined :: "'a nullable \<Rightarrow> 'a nullable" where
  "dropUndefined v = (case v of Undefined \<Rightarrow> Absent | _ \<Rightarrow> v)"

text \<open>
  The schema's \<open>TaskState\<close>. Its declaration is not among the sources: the values are
  the ones server.ts and the specification name, and \<open>Unknown\<close> is any other value.
\<close>

datatype task_state =
  Submitted | Working | InputRequired | Completed | Canceled | Failed | Unknown

datatype role = User | Agent

datatype part = TextPart string | FilePart json | DataPart json

record message =
  m_role :: role
  m_parts :: "part list"
  m_metadata :: "metadata option"

record task_status =
  state :: task_state
  timestamp :: timestamp
  message :: "message nullable"

text \<open>
  \<open>Omit<TaskStatus, 'timestamp'>\<close>, the status update a handler yields. The type leaves
  the timestamp out; an object that carries one all the same is \<open>su_timestamp = Some t\<close>.
\<close>

record status_update =
  su_state :: task_state
  su_message :: "message nullable"
  su_timestamp :: "timestamp option"

text \<open>
  An artifact. \<open>index\<close> is an integer position. For the properties the source only
  tests for truthiness (\<open>name\<close>, \<open>description\<close>, \<open>append\<close>, \<open>metadata\<close>),
  \<open>None\<close> is a missing or nullish property.
\<close>

record artifact =
  a_name :: "string option"
  a_description :: "string option"
  a_parts :: "part list"
  a_index :: "int nullable"
  a_append :: "bool option"
  a_lastChunk :: "bool nullable"
  a_metadata :: "metadata option"

record task =
  t_id :: string
  t_sessionId :: "string option"
  t_status :: task_status
  t_artifacts :: "artifact list option"
  t_metadata :: "metadata option"

text \<open>store.ts: \<open>TaskAndHistory\<close>.\<close>

record task_and_history =
  task :: task
  history :: "message list"

text \<open>What a handler yields: a status update, an artifact, or something else.\<close>

datatype update =
    StatusUpdate (the_status: status_update)
  | ArtifactUpdate (the_artifact: artifact)
  | UnknownUpdate

section \<open>utils.ts\<close>

definition isTaskStatusUpdate :: "update \<Rightarrow> bool" where
  \<comment> \<open>Modelled from the spec: utils.ts is not among the sources. By section 3 of the
      specification an update is told apart by its shape: it is a status update when it
      has a \<open>state\<close>. The constructor carries that shape.\<close>
  "isTaskStatusUpdate u = (case u of StatusUpdate _ \<Rightarrow> True | _ \<Rightarrow> False)"

definition isArtifactUpdate :: "update \<Rightarrow> bool" where
  \<comment> \<open>Modelled from the spec: utils.ts is not among the sources. By section 3 of the
      specification an update is an artifact update when it has \<open>parts\<close> and no
      \<open>state\<close>.\<close>
  "isArtifactUpdate u = (case u of ArtifactUpdate _ \<Rightarrow> True | _ \<Rightarrow> False)"

section \<open>tasks.ts: the update model\<close>

text \<open>JavaScript truthiness of an optional string: present and not empty.\<close>

definition truthy :: "string option \<Rightarrow> bool" where
  "truthy s = (case s of None \<Rightarrow> False | Some v \<Rightarrow> v \<noteq> [])"

text \<open>\<open>Array.prototype.findIndex\<close>; \<open>None\<close> is its \<open>-1\<close>.\<close>

fun findIndex :: "('a \<Rightarrow> bool) \<Rightarrow> 'a list \<Rightarrow> nat option" where
  "findIndex P [] = None"
| "findIndex P (x # xs) =
     (if P x then Some 0 else map_option Suc (findIndex P xs))"

text \<open>\<open>{ ...a, ...b }\<close> on property lists: the keys of \<open>b\<close> win, in place or at the end.\<close>

definition spread :: "metadata \<Rightarrow> metadata \<Rightarrow> metadata" where
  "spread a b = fold (\<lambda>(k, v) acc. AList.update k v acc) b a"

text \<open>The sort key of the comparator \<open>(a.index ?? 0) - (b.index ?? 0)\<close>.\<close>

definition indexKey :: "artifact \<Rightarrow> int" where
  "indexKey a = (case a_index a of Present i \<Rightarrow> i | _ \<Rightarrow> 0)"

text \<open>\<open>JSON.parse(JSON.stringify(a))\<close>, the deep copy of an artifact.\<close>

definition jsonCopy :: "artifact \<Rightarrow> artifact" where
  "jsonCopy a =
     a \<lparr> a_index := dropUndefined (a_index a), a_lastChunk := dropUndefined (a_lastChunk a) \<rparr>"

text \<open>
  The artifact branch for an in-range index with \<open>append\<close> set: on a deep copy of the
  existing artifact, the update's parts go behind the existing ones, its metadata is
  merged over the existing metadata, and \<open>lastChunk\<close> and \<open>description\<close> are taken
  over when the update has them.
\<close>

definition appendedArtifact :: "artifact \<Rightarrow> artifact \<Rightarrow> artifact" where
  "appendedArtifact existingArtifact upd =
     (let copy = jsonCopy existingArtifact in
      copy
       \<lparr> a_parts := a_parts copy @ a_parts upd,
         a_metadata :=
           (case a_metadata upd of
              None \<Rightarrow> a_metadata copy
            | Some md \<Rightarrow>
                Some (spread (case a_metadata copy of None \<Rightarrow> [] | Some e \<Rightarrow> e) md)),
         a_lastChunk :=
           (if defined (a_lastChunk upd) then a_lastChunk upd else a_lastChunk copy),
         a_description :=
           (if truthy (a_description upd) then a_description upd
            else a_description copy) \<rparr>)"

text \<open>
  The artifact branch of \<open>applyUpdateToTaskAndHistory\<close> on the artifacts array: the new
  array and the \<open>replaced\<close> flag, before the push.
\<close>

definition replaceArtifact :: "artifact list \<Rightarrow> artifact \<Rightarrow> artifact list \<times> bool" where
  "replaceArtifact artifacts upd =
     (let existingIndex = (case a_index upd of Present i \<Rightarrow> i | _ \<Rightarrow> - 1) in
      if existingIndex \<ge> 0 \<and> existingIndex < int (length artifacts) then
        (let existingArtifact = artifacts ! nat existingIndex in
         if a_append upd = Some True then
           (artifacts[nat existingIndex := appendedArtifact existingArtifact upd], True)
         else (artifacts[nat existingIndex := upd], True))
      else if truthy (a_name upd) then
        (case findIndex (\<lambda>a. a_name a = a_name upd) artifacts of
           Some namedIndex \<Rightarrow> (artifacts[namedIndex := upd], True)
         | None \<Rightarrow> (artifacts, False))
      else (artifacts, False))"

definition applyArtifact :: "artifact list \<Rightarrow> artifact \<Rightarrow> artifact list" where
  "applyArtifact artifacts upd =
     (let (artifacts', replaced) = replaceArtifact artifacts upd in
      if \<not> replaced then
        (let pushed = artifacts' @ [upd] in
         if list_ex (\<lambda>a. defined (a_index a)) pushed then sort_key indexKey pushed
         else pushed)
      else artifacts')"

text \<open>
  \<open>applyUpdateToTaskAndHistory\<close>. \<open>now\<close> is what \<open>getCurrentTimestamp()\<close> returns at the
  call. The shallow copies the source makes are the values themselves here. In the status
  branch the spread \<open>{ ...newTask.status, ...update, timestamp }\<close> takes the message from
  the update whenever the update has the property, be its value a message, \<open>null\<close> or
  \<open>undefined\<close>, and keeps the existing message only when the update has no such
  property.
\<close>

definition applyUpdateToTaskAndHistory ::
  "timestamp \<Rightarrow> task_and_history \<Rightarrow> update \<Rightarrow> task_and_history" where
  "applyUpdateToTaskAndHistory now current upd =
     (let newTask = task current; newHistory = history current in
      if isTaskStatusUpdate upd then
        (let u = the_status upd;
             merged = \<lparr> state = su_state u, timestamp = now,
                        message = (case su_message u of
                                     Absent \<Rightarrow> message (t_status newTask)
                                   | m \<Rightarrow> m) \<rparr>
         in \<lparr> task = newTask \<lparr> t_status := merged \<rparr>,
              history = (case su_message u of
                           Present m \<Rightarrow>
                             if m_role m = Agent then newHistory @ [m] else newHistory
                         | _ \<Rightarrow> newHistory) \<rparr>)
      else if isArtifactUpdate upd then
        (let artifacts = (case t_artifacts newTask of None \<Rightarrow> [] | Some xs \<Rightarrow> xs)
         in \<lparr> task = newTask
                \<lparr> t_artifacts := Some (applyArtifact artifacts (the_artifact upd)) \<rparr>,
              history = newHistory \<rparr>)
      else \<lparr> task = newTask, history = newHistory \<rparr>)"

section \<open>error.ts, jsonrpc.ts\<close>

text \<open>
  The schema's error codes by name (their numbers are not among the sources), and what the
  server can throw: an \<open>A2AError\<close> with its code, message and task id, or any other
  \<open>Error\<close> with its message.
\<close>

datatype error_code =
    ErrorCodeParseError | ErrorCodeInvalidRequest | ErrorCodeMethodNotFound
  | ErrorCodeInvalidParams | ErrorCodeInternalError | ErrorCodeTaskNotFound
  | ErrorCodeTaskNotCancelable | ErrorCodePushNotificationNotSupported
  | ErrorCodeUnsupportedOperation

datatype failure =
    A2AError error_code string "string option"
  | OtherError string

definition invalidParams :: "string \<Rightarrow> failure" where
  "invalidParams msg = A2AError ErrorCodeInvalidParams msg None"

definition internalError :: "string \<Rightarrow> failure" where
  "internalError msg = A2AError ErrorCodeInternalError msg None"

definition taskNotFound :: "string \<Rightarrow> failure" where
  "taskNotFound taskId = A2AError ErrorCodeTaskNotFound (''Task not found: '' @ taskId) (Some taskId)"

definition failureMessage :: "failure \<Rightarrow> string" where
  "failureMessage e = (case e of A2AError _ msg _ \<Rightarrow> msg | OtherError msg \<Rightarrow> msg)"

text \<open>A request id: a string or a number. \<open>None\<close> of \<open>request_id option\<close> is \<open>null\<close>.\<close>

datatype request_id = IdString string | IdNumber real

record 'r response =
  r_jsonrpc :: string
  r_id :: request_id
  r_result :: 'r

definition createSuccessResponse :: "request_id option \<Rightarrow> 'r \<Rightarrow> failure + 'r response" where
  "createSuccessResponse rid res =
     (case rid of
        None \<Rightarrow> Inl (internalError ''Cannot create a success response with a null ID'')
      | Some i \<Rightarrow> Inr \<lparr> r_jsonrpc = ''2.0'', r_id = i, r_result = res \<rparr>)"

text \<open>\<open>typeof\<close>, property access and \<open>Array.isArray\<close> on a decoded body.\<close>

datatype js_type = TUndefined | TObject | TBoolean | TNumber | TString

fun typeof :: "json option \<Rightarrow> js_type" where
  "typeof None = TUndefined"
| "typeof (Some JNull) = TObject"
| "typeof (Some (JBool _)) = TBoolean"
| "typeof (Some (JNum _)) = TNumber"
| "typeof (Some (JStr _)) = TString"
| "typeof (Some (JArr _)) = TObject"
| "typeof (Some (JObj _)) = TObject"

fun field :: "json \<Rightarrow> string \<Rightarrow> json option" where
  "field (JObj kvs) k = map_of kvs k"
| "field _ k = None"

fun isArray :: "json option \<Rightarrow> bool" where
  "isArray (Some (JArr _)) = True"
| "isArray _ = False"

definition isValidJsonRpcRequest :: "json \<Rightarrow> bool" where
  "isValidJsonRpcRequest body =
     (typeof (Some body) = TObject \<and>
      body \<noteq> JNull \<and>
      field body ''jsonrpc'' = Some (JStr ''2.0'') \<and>
      typeof (field body ''method'') = TString \<and>
      (field body ''id'' = Some JNull \<or> typeof (field body ''id'') = TString
         \<or> typeof (field body ''id'') = TNumber) \<and>
      (field body ''params'' = None \<or>
       typeof (field body ''params'') = TObject \<or>
       isArray (field body ''params'')))"

text \<open>
  The request dispatcher's validation as the specification words it (section 4.3), to be
  compared with \<open>isValidJsonRpcRequest\<close>: the version tag is the fixed value, \<open>method\<close>
  is a non-empty string, \<open>id\<close> is a string, a number or null, and \<open>params\<close>, if
  present, is an object or an array and not a primitive.
\<close>

definition specValidEnvelope :: "json \<Rightarrow> bool" where
  "specValidEnvelope body =
     (field body ''jsonrpc'' = Some (JStr ''2.0'') \<and>
      (case field body ''method'' of Some (JStr m) \<Rightarrow> m \<noteq> [] | _ \<Rightarrow> False) \<and>
      (case field body ''id'' of
         Some JNull \<Rightarrow> True | Some (JStr _) \<Rightarrow> True | Some (JNum _) \<Rightarrow> True
       | _ \<Rightarrow> False) \<and>
      (case field body ''params'' of
         None \<Rightarrow> True | Some (JObj _) \<Rightarrow> True | Some (JArr _) \<Rightarrow> True
       | _ \<Rightarrow> False))"

section \<open>tasks.ts: events\<close>

datatype event =
    TaskStatusUpdateEvent (e_id: string) (e_status: task_status) (final: bool)
  | TaskArtifactUpdateEvent (e_id: string) (e_artifact: artifact) (final: bool)

definition createTaskStatusEvent :: "string \<Rightarrow> task_status \<Rightarrow> bool \<Rightarrow> event" where
  "createTaskStatusEvent taskId status fin = TaskStatusUpdateEvent taskId status fin"

definition createTaskArtifactEvent :: "string \<Rightarrow> artifact \<Rightarrow> bool \<Rightarrow> event" where
  "createTaskArtifactEvent taskId art fin = TaskArtifactUpdateEvent taskId art fin"

definition createTaskFailureStatusUpdate :: "failure \<Rightarrow> status_update" where
  "createTaskFailureStatusUpdate error =
     \<lparr> su_state = Failed,
       su_message = Present \<lparr> m_role = Agent,
                              m_parts = [TextPart (''Handler failed: '' @ failureMessage error)],
                              m_metadata = None \<rparr>,
       su_timestamp = None \<rparr>"

section \<open>store.ts: the task store, the cancellation flags, the clock\<close>

text \<open>
  What the server works on. \<open>tasks\<close> is the task store, as the \<open>TaskStore\<close>
  interface has it: \<open>save\<close> files a snapshot under its task id and \<open>load\<close> gives
  back what was filed. \<open>activeCancellations\<close> is the set of task ids flagged for
  cancellation. \<open>faults\<close> is the answer of the store to the
  coming saves, in order: \<open>Some msg\<close> rejects the save with that message, \<open>None\<close>
  accepts it, and when the list is used up every save is accepted. \<open>clock\<close> gives the
  successive readings of \<open>getCurrentTimestamp()\<close> and \<open>reads\<close> counts them. Loading is
  taken to answer always.
\<close>

record world =
  tasks :: "string \<rightharpoonup> task_and_history"
  activeCancellations :: "string set"
  faults :: "string option list"
  clock :: "nat \<Rightarrow> timestamp"
  reads :: nat

definition getCurrentTimestamp :: "world \<Rightarrow> timestamp \<times> world" where
  \<comment> \<open>Modelled from the spec: utils.ts is not among the sources. The specification has
      the timestamp set to the current time; the time is the next reading of the world's
      clock.\<close>
  "getCurrentTimestamp w = (clock w (reads w), w \<lparr> reads := Suc (reads w) \<rparr>)"

definition load :: "world \<Rightarrow> string \<Rightarrow> task_and_history option" where
  "load w taskId = tasks w taskId"

definition save :: "world \<Rightarrow> task_and_history \<Rightarrow> failure option \<times> world" where
  "save w data =
     (case faults w of
        [] \<Rightarrow> (None, w \<lparr> tasks := (tasks w)(t_id (task data) \<mapsto> data) \<rparr>)
      | None # fs \<Rightarrow>
          (None, w \<lparr> tasks := (tasks w)(t_id (task data) \<mapsto> data), faults := fs \<rparr>)
      | Some msg # fs \<Rightarrow> (Some (OtherError msg), w \<lparr> faults := fs \<rparr>))"

text \<open>
  \<open>applyUpdateToTaskAndHistory\<close> as the server calls it: the clock is read in the status
  branch, and nowhere else.
\<close>

definition applyUpdateNow :: "world \<Rightarrow> task_and_history \<Rightarrow> update \<Rightarrow> task_and_history \<times> world" where
  "applyUpdateNow w current upd =
     (if isTaskStatusUpdate upd then
        (let (now, w') = getCurrentTimestamp w
         in (applyUpdateToTaskAndHistory now current upd, w'))
      else (applyUpdateToTaskAndHistory (clock w (reads w)) current upd, w))"

section \<open>server.ts\<close>

subsection \<open>loadOrCreateTaskAndHistory\<close>

definition finalStates :: "task_state list" where
  "finalStates = [Completed, Failed, Canceled]"

definition loadOrCreateTaskAndHistory ::
  "world \<Rightarrow> string \<Rightarrow> message \<Rightarrow> string option \<Rightarrow> metadata option
     \<Rightarrow> (failure + task_and_history) \<times> world" where
  "loadOrCreateTaskAndHistory w taskId initialMessage sessionId metadata =
     (let (data, w1) =
        (case load w taskId of
           None \<Rightarrow>
             (let (now, w') = getCurrentTimestamp w;
                  initialTask =
                    \<lparr> t_id = taskId, t_sessionId = sessionId,
                      t_status = \<lparr> state = Submitted, timestamp = now, message = Null \<rparr>,
                      t_artifacts = Some [],
                      t_metadata = Some (case metadata of None \<Rightarrow> [] | Some md \<Rightarrow> md) \<rparr>
              in (\<lparr> task = initialTask, history = [initialMessage] \<rparr>, w'))
         | Some loaded \<Rightarrow>
             (let data = \<lparr> task = task loaded, history = history loaded @ [initialMessage] \<rparr>
              in if state (t_status (task data)) \<in> set finalStates then
                   applyUpdateNow w data
                     (StatusUpdate \<lparr> su_state = Submitted, su_message = Null,
                                     su_timestamp = None \<rparr>)
                 else if state (t_status (task data)) = InputRequired then
                   applyUpdateNow w data
                     (StatusUpdate \<lparr> su_state = Working, su_message = Absent,
                                     su_timestamp = None \<rparr>)
                 else (data, w)))
      in case save w1 data of
           (Some e, w2) \<Rightarrow> (Inl e, w2)
         | (None, w2) \<Rightarrow> (Inr \<lparr> task = task data, history = history data \<rparr>, w2))"

subsection \<open>taskCancel\<close>

definition cancelUpdate :: status_update where
  "cancelUpdate =
     \<lparr> su_state = Canceled,
       su_message = Present \<lparr> m_role = Agent,
                              m_parts = [TextPart ''Task canceled by request.''],
                              m_metadata = None \<rparr>,
       su_timestamp = None \<rparr>"

text \<open>
  \<open>taskCancel\<close> for the request id \<open>rid\<close> (\<open>req.id ?? null\<close>) and the task id of its
  parameters. The result is the response handed to \<open>ctx.json\<close>: the task alone for a
  task already in a final state, the task and its history otherwise.
\<close>

definition taskCancel ::
  "world \<Rightarrow> request_id option \<Rightarrow> string
     \<Rightarrow> (failure + (task + task_and_history) response) \<times> world" where
  "taskCancel w rid taskId =
     (case load w taskId of
        None \<Rightarrow> (Inl (taskNotFound taskId), w)
      | Some data \<Rightarrow>
          if state (t_status (task data)) \<in> set finalStates then
            (createSuccessResponse rid (Inl (task data)), w)
          else
            (let w1 = w \<lparr> activeCancellations := insert taskId (activeCancellations w) \<rparr>;
                 (data', w2) = applyUpdateNow w1 data (StatusUpdate cancelUpdate)
             in case save w2 data' of
                  (Some e, w3) \<Rightarrow> (Inl e, w3)
                | (None, w3) \<Rightarrow>
                    (let w4 = w3 \<lparr> activeCancellations := activeCancellations w3 - {taskId} \<rparr>
                     in (createSuccessResponse rid (Inr data'), w4))))"

subsection \<open>taskSendSubscribe\<close>

text \<open>
  The parameters of a send request as they arrive, and their validation.
\<close>

record task_send_params =
  p_id :: "string option"
  p_message :: "message option"
  p_sessionId :: "string option"
  p_metadata :: "metadata option"

record send_request =
  req_id :: "request_id option"
  req_params :: task_send_params

definition validateTaskSendParams :: "send_request \<Rightarrow> failure option" where
  \<comment> \<open>Modelled from the spec: utils.ts is not among the sources. By section 4.4 of the
      specification the required parameters, \<open>id\<close> and \<open>message\<close> at least, are
      validated, and a request without them is refused.\<close>
  "validateTaskSendParams req =
     (case (p_id (req_params req), p_message (req_params req)) of
        (Some _, Some _) \<Rightarrow> None
      | _ \<Rightarrow> Some (invalidParams ''Missing task id or message.''))"

text \<open>
  The task handler is an async generator. In one run it produces a finite sequence of
  steps: it yields an update, or it throws; the end of the list is its return. A generator
  that has thrown is finished, so what stands behind a \<open>Throw\<close> never happens.
\<close>

datatype step = Yield update | Throw failure

text \<open>The updates the handler yields, and the failure it throws, if it throws.\<close>

fun yielded :: "step list \<Rightarrow> update list" where
  "yielded [] = []"
| "yielded (Yield u # rest) = u # yielded rest"
| "yielded (Throw e # rest) = []"

fun thrown :: "step list \<Rightarrow> failure option" where
  "thrown [] = None"
| "thrown (Yield u # rest) = thrown rest"
| "thrown (Throw e # rest) = Some e"

text \<open>
  The variables of the streaming callback, \<open>currentData\<close> and \<open>lastEventWasFinal\<close>, the
  world, and the stream. \<open>sent\<close> lists the events handed to \<open>sendEvent\<close>, in order.
  \<open>sendEvent\<close> calls \<open>stream.writeSSE\<close> and nothing awaits the promise it returns.
  The stream is hono's \<open>SSEStreamingApi\<close>, which is not part of the repository:
  \<open>writeSSE\<close> is an async function that gives its data to the stream's writer only after
  an await of its own, \<open>close\<close> closes the writer at once, and a write that comes after
  is refused and the refusal swallowed. So an event handed to \<open>sendEvent\<close> is \<open>pending\<close>
  until the callback next awaits the generator or the store, which lets the pending writes
  through (the most an await can do for them), and then it is \<open>written\<close>; an event
  still pending when the callback closes the stream is never written.
\<close>

record stream_run =
  currentData :: task_and_history
  lastEventWasFinal :: bool
  sent :: "event response list"
  pending :: "event response list"
  written :: "event response list"
  closed :: bool
  wld :: world

definition sendEvent :: "event response \<Rightarrow> stream_run \<Rightarrow> stream_run" where
  "sendEvent eventData s =
     s \<lparr> sent := sent s @ [eventData], pending := pending s @ [eventData] \<rparr>"

text \<open>An \<open>await\<close> of the generator or of the store, as the stream sees it.\<close>

definition awaited :: "stream_run \<Rightarrow> stream_run" where
  "awaited s =
     (if closed s then s else s \<lparr> written := written s @ pending s, pending := [] \<rparr>)"

definition closeStream :: "stream_run \<Rightarrow> stream_run" where
  "closeStream s = s \<lparr> closed := True \<rparr>"

definition terminalStates :: "task_state list" where
  "terminalStates = [Completed, Failed, Canceled, InputRequired]"

text \<open>
  The artifact an artifact event carries: the first one of the new task whose index is not
  \<open>undefined\<close> and strictly equal to the update's, or whose name is truthy and equal to
  the update's, or else the update itself.
\<close>

definition updatedArtifact :: "task \<Rightarrow> artifact \<Rightarrow> artifact" where
  "updatedArtifact t yieldValue =
     (case (case t_artifacts t of
              None \<Rightarrow> None
            | Some arts \<Rightarrow>
                find (\<lambda>a. (defined (a_index a) \<and> a_index a = a_index yieldValue) \<or>
                           (truthy (a_name a) \<and> a_name a = a_name yieldValue)) arts) of
        None \<Rightarrow> yieldValue
      | Some a \<Rightarrow> a)"

text \<open>
  The \<open>for await\<close> loop over the generator. Every turn begins by awaiting the generator's
  next step; the save is awaited, \<open>sendEvent\<close> is not. Behind a final event the loop is
  left by \<open>break\<close>: no next step and no save is awaited after it. The result is the
  exception that left the loop, if any, and the variables at that point.
\<close>

fun drain :: "request_id option \<Rightarrow> string \<Rightarrow> step list \<Rightarrow> stream_run
    \<Rightarrow> failure option \<times> stream_run" where
  "drain rid taskId [] s = (None, awaited s)"
| "drain rid taskId (Throw e # rest) s = (Some e, awaited s)"
| "drain rid taskId (Yield yieldValue # rest) s =
     (let s0 = awaited s;
          (data, w1) = applyUpdateNow (wld s0) (currentData s0) yieldValue;
          (err, w2) = save w1 data;
          s1 = awaited (s0 \<lparr> currentData := data, wld := w2 \<rparr>)
      in case err of
           Some e \<Rightarrow> (Some e, s1)
         | None \<Rightarrow>
             (let produced =
                (if isTaskStatusUpdate yieldValue then
                   (let isFinal = state (t_status (task data)) \<in> set terminalStates
                    in Some (createTaskStatusEvent taskId (t_status (task data)) isFinal, isFinal))
                 else if isArtifactUpdate yieldValue then
                   Some (createTaskArtifactEvent taskId
                           (updatedArtifact (task data) (the_artifact yieldValue)) False, False)
                 else None)
              in case produced of
                   None \<Rightarrow> drain rid taskId rest s1
                 | Some (event, isFinal) \<Rightarrow>
                     (case createSuccessResponse rid event of
                        Inl e \<Rightarrow> (Some e, s1)
                      | Inr resp \<Rightarrow>
                          (let s2 = (sendEvent resp s1) \<lparr> lastEventWasFinal := isFinal \<rparr>
                           in if isFinal then (None, s2) else drain rid taskId rest s2))))"

declare drain.simps [simp del]

text \<open>The block after the loop, entered when the last event sent was not final.\<close>

definition forceFinal :: "request_id option \<Rightarrow> string \<Rightarrow> stream_run
    \<Rightarrow> failure option \<times> stream_run" where
  "forceFinal rid taskId s =
     (let (err, s1) =
        (if state (t_status (task (currentData s))) \<notin> set terminalStates then
           (let (data, w1) =
                  applyUpdateNow (wld s) (currentData s)
                    (StatusUpdate \<lparr> su_state = Completed, su_message = Absent,
                                    su_timestamp = None \<rparr>);
                (err, w2) = save w1 data
            in (err, awaited (s \<lparr> currentData := data, wld := w2 \<rparr>)))
         else (None, s))
      in case err of
           Some e \<Rightarrow> (Some e, s1)
         | None \<Rightarrow>
             (let finalEvent =
                    createTaskStatusEvent taskId (t_status (task (currentData s1))) True
              in case createSuccessResponse rid finalEvent of
                   Inl e \<Rightarrow> (Some e, s1)
                 | Inr resp \<Rightarrow> (None, sendEvent resp s1)))"

text \<open>The \<open>try\<close> block: the loop, then the forced final event.\<close>

definition tryBlock :: "request_id option \<Rightarrow> string \<Rightarrow> step list \<Rightarrow> stream_run
    \<Rightarrow> failure option \<times> stream_run" where
  "tryBlock rid taskId steps s =
     (case drain rid taskId steps s of
        (Some e, s1) \<Rightarrow> (Some e, s1)
      | (None, s1) \<Rightarrow>
          if \<not> lastEventWasFinal s1 then forceFinal rid taskId s1 else (None, s1))"

text \<open>
  The \<open>catch\<close> block: the failure becomes a \<open>failed\<close> status, saved if the store takes
  it, and handed to \<open>sendEvent\<close> as a final event.
\<close>

definition catchBlock :: "request_id option \<Rightarrow> string \<Rightarrow> failure \<Rightarrow> stream_run
    \<Rightarrow> failure option \<times> stream_run" where
  "catchBlock rid taskId error s =
     (let (data, w1) =
            applyUpdateNow (wld s) (currentData s)
              (StatusUpdate (createTaskFailureStatusUpdate error));
          (_, w2) = save w1 data;
          s1 = awaited (s \<lparr> currentData := data, wld := w2 \<rparr>);
          errorEvent = createTaskStatusEvent taskId (t_status (task data)) True
      in case createSuccessResponse rid errorEvent of
           Inl e \<Rightarrow> (Some e, s1)
         | Inr resp \<Rightarrow> (None, sendEvent resp s1))"

text \<open>
  The callback given to \<open>streamSSE\<close>: the \<open>try\<close> block, the \<open>catch\<close> block when an
  exception left it, and the \<open>finally\<close> block, which closes the stream if it is not
  closed. The result is the exception that left the callback, if any, and the variables
  at its end.
\<close>

definition streamCallback :: "request_id option \<Rightarrow> string \<Rightarrow> step list \<Rightarrow> stream_run
    \<Rightarrow> failure option \<times> stream_run" where
  "streamCallback rid taskId steps s =
     (let (exn, s1) =
            (case tryBlock rid taskId steps s of
               (None, s') \<Rightarrow> (None, s')
             | (Some error, s') \<Rightarrow> catchBlock rid taskId error s')
      in (exn, if \<not> closed s1 then closeStream s1 else s1))"

text \<open>
  \<open>taskSendSubscribe\<close> on a request and the steps the handler's generator takes in this
  run. \<open>Inl\<close> is a failure before the stream is opened; otherwise the result is that of
  the streaming callback, run on the snapshot that was loaded or created and on a stream
  to which nothing has been sent.
\<close>

definition taskSendSubscribe :: "world \<Rightarrow> send_request \<Rightarrow> step list
    \<Rightarrow> (failure + failure option \<times> stream_run) \<times> world" where
  "taskSendSubscribe w req steps =
     (case validateTaskSendParams req of
        Some e \<Rightarrow> (Inl e, w)
      | None \<Rightarrow>
          (case (p_id (req_params req), p_message (req_params req)) of
             (Some taskId, Some msg) \<Rightarrow>
               (case loadOrCreateTaskAndHistory w taskId msg
                       (p_sessionId (req_params req)) (p_metadata (req_params req)) of
                  (Inl e, w1) \<Rightarrow> (Inl e, w1)
                | (Inr data, w1) \<Rightarrow>
                    (let (exn, s) =
                           streamCallback (req_id req) taskId steps
                             \<lparr> currentData = data, lastEventWasFinal = False, sent = [],
                               pending = [], written = [], closed = False, wld = w1 \<rparr>
                     in (Inr (exn, s), wld s)))
           | _ \<Rightarrow> (Inl (invalidParams ''Missing task id or message.''), w)))"

section \<open>Vocabulary of the claims\<close>

text \<open>The store accepts the next save; the store accepts every save to come.\<close>

definition acceptsNext :: "world \<Rightarrow> bool" where
  "acceptsNext w = (case faults w of [] \<Rightarrow> True | f # _ \<Rightarrow> f = None)"

definition accepting :: "world \<Rightarrow> bool" where
  "accepting w = list_all (\<lambda>f. f = None) (faults w)"

text \<open>
  What the specification says of an outbound event: for a status event the state it
  carries, and for every event its final flag.
\<close>

definition eventShape :: "event \<Rightarrow> task_state option \<times> bool" where
  "eventShape e =
     (case e of
        TaskStatusUpdateEvent _ st f \<Rightarrow> (Some (state st), f)
      | TaskArtifactUpdateEvent _ _ f \<Rightarrow> (None, f))"

text \<open>
  The events of the streaming loop as the specification words them (section 4.5), to be
  compared with what \<open>drain\<close> sends: a status update gives a status event, final if and
  only if its state is completed, failed, canceled or input-required; an artifact update
  gives an artifact event that is not final; any other update gives nothing; and nothing
  follows the first final event.
\<close>

fun claimedEvents :: "update list \<Rightarrow> (task_state option \<times> bool) list" where
  "claimedEvents [] = []"
| "claimedEvents (StatusUpdate u # us) =
     (if su_state u \<in> {Completed, Failed, Canceled, InputRequired}
      then [(Some (su_state u), True)]
      else (Some (su_state u), False) # claimedEvents us)"
| "claimedEvents (ArtifactUpdate a # us) = (None, False) # claimedEvents us"
| "claimedEvents (UnknownUpdate # us) = claimedEvents us"

section \<open>Example values\<close>

definition exArtifact :: "int nullable \<Rightarrow> string \<Rightarrow> artifact" where
  "exArtifact i txt =
     \<lparr> a_name = None, a_description = None, a_parts = [TextPart txt], a_index = i,
       a_append = None, a_lastChunk = Absent, a_metadata = None \<rparr>"

definition exMessage :: "role \<Rightarrow> string \<Rightarrow> message" where
  "exMessage r txt = \<lparr> m_role = r, m_parts = [TextPart txt], m_metadata = None \<rparr>"

definition exTask :: "task_state \<Rightarrow> message nullable \<Rightarrow> artifact list \<Rightarrow> task" where
  "exTask st msg arts =
     \<lparr> t_id = ''t1'', t_sessionId = None,
       t_status = \<lparr> state = st, timestamp = ''T0'', message = msg \<rparr>,
       t_artifacts = Some arts, t_metadata = Some [] \<rparr>"

text \<open>
  A world whose store holds the given snapshots under their task ids, with no flag set,
  the given answers to the coming saves, and a clock that reads \<open>T1\<close>.
\<close>

definition exWorld :: "task_and_history list \<Rightarrow> string option list \<Rightarrow> world" where
  "exWorld ds fs =
     \<lparr> tasks = map_of (map (\<lambda>d. (t_id (task d), d)) ds), activeCancellations = {},
       faults = fs, clock = (\<lambda>n. ''T1''), reads = 0 \<rparr>"

definition exRequest :: "request_id option \<Rightarrow> send_request" where
  "exRequest rid =
     \<lparr> req_id = rid,
       req_params = \<lparr> p_id = Some ''t1'', p_message = Some (exMessage User ''start''),
                      p_sessionId = None, p_metadata = None \<rparr> \<rparr>"

definition exStatus :: "task_state \<Rightarrow> update" where
  "exStatus st = StatusUpdate \<lparr> su_state = st, su_message = Absent, su_timestamp = None \<rparr>"

section \<open>The update model: artifacts\<close>

lemma defined_simps [simp]:
  "defined Absent = False" "defined Undefined = False"
  "defined Null = True" "defined (Present x) = True"
  by (simp_all add: defined_def)

lemma findIndex_None: "findIndex P xs = None \<longleftrightarrow> (\<forall>x\<in>set xs. \<not> P x)"
  by (induction xs) auto

lemma replaceArtifact_none:
  assumes "a_index a \<in> {Absent, Undefined, Null} \<or>
           (\<exists>i. a_index a = Present i \<and> (i < 0 \<or> int (length arts) \<le> i))"
      and "\<not> truthy (a_name a) \<or> (\<forall>x\<in>set arts. a_name x \<noteq> a_name a)"
  shows "replaceArtifact arts a = (arts, False)"
proof -
  have "truthy (a_name a) \<Longrightarrow> findIndex (\<lambda>x. a_name x = a_name a) arts = None"
    using assms(2) by (simp add: findIndex_None)
  with assms(1) show ?thesis
    by (auto simp: replaceArtifact_def)
qed

lemma applyArtifact_pushed:
  assumes "a_index a \<in> {Absent, Undefined, Null} \<or>
           (\<exists>i. a_index a = Present i \<and> (i < 0 \<or> int (length arts) \<le> i))"
      and "\<not> truthy (a_name a) \<or> (\<forall>x\<in>set arts. a_name x \<noteq> a_name a)"
  shows "applyArtifact arts a =
     (if list_ex (\<lambda>x. defined (a_index x)) (arts @ [a]) then sort_key indexKey (arts @ [a])
      else arts @ [a])"
  by (simp add: applyArtifact_def replaceArtifact_none[OF assms])

lemma t_artifacts_apply:
  "t_artifacts (task (applyUpdateToTaskAndHistory now d (ArtifactUpdate a))) =
     Some (applyArtifact (case t_artifacts (task d) of None \<Rightarrow> [] | Some xs \<Rightarrow> xs) a)"
  by (simp add: applyUpdateToTaskAndHistory_def isTaskStatusUpdate_def isArtifactUpdate_def
      Let_def)

text \<open>
  Claim C1, as the code has it. On a task whose artifacts list is empty, an artifact update
  with index 2 followed by an artifact update with index 0 (no append flag) leaves a list
  with the index-0 artifact alone: after the first update the list has one element, so
  index 0 is within its bounds, the second update targets slot 0, which holds the index-2
  artifact, and overwrites it.
\<close>

theorem index_two_then_zero_overwrites:
  assumes "t_artifacts (task d) = Some []"
      and "a_index a2 = Present 2" and "a_index a0 = Present 0" and "a_append a0 \<noteq> Some True"
  shows "t_artifacts (task (applyUpdateToTaskAndHistory now'
            (applyUpdateToTaskAndHistory now d (ArtifactUpdate a2)) (ArtifactUpdate a0)))
         = Some [a0]"
  using assms by (simp add: t_artifacts_apply applyArtifact_def replaceArtifact_def)

theorem index_two_then_zero_overwrites_witness:
  "t_artifacts (task \<lparr> task = exTask Working Null [], history = [] \<rparr>) = Some [] \<and>
   a_index (exArtifact (Present 2) ''two'') = Present 2 \<and>
   a_index (exArtifact (Present 0) ''zero'') = Present 0 \<and>
   a_append (exArtifact (Present 0) ''zero'') \<noteq> Some True \<and>
   t_artifacts (task (applyUpdateToTaskAndHistory ''T2''
       (applyUpdateToTaskAndHistory ''T1''
          \<lparr> task = exTask Working Null [], history = [] \<rparr>
          (ArtifactUpdate (exArtifact (Present 2) ''two'')))
       (ArtifactUpdate (exArtifact (Present 0) ''zero''))))
     = Some [exArtifact (Present 0) ''zero'']"
  using index_two_then_zero_overwrites
    [of "\<lparr> task = exTask Working Null [], history = [] \<rparr>"
        "exArtifact (Present 2) ''two''" "exArtifact (Present 0) ''zero''" "''T2''" "''T1''"]
  by (simp add: exTask_def exArtifact_def)

text \<open>
  Claim C1 as stated fails: after the updates with index 2 and index 0 the artifacts list
  is not the index-0 artifact followed by the index-2 artifact.
\<close>

theorem index_two_then_zero_counterexample:
  "t_artifacts (task (applyUpdateToTaskAndHistory ''T2''
       (applyUpdateToTaskAndHistory ''T1''
          \<lparr> task = exTask Working Null [], history = [] \<rparr>
          (ArtifactUpdate (exArtifact (Present 2) ''two'')))
       (ArtifactUpdate (exArtifact (Present 0) ''zero''))))
   \<noteq> Some [exArtifact (Present 0) ''zero'', exArtifact (Present 2) ''two'']"
  by (simp add: t_artifacts_apply applyArtifact_def replaceArtifact_def exTask_def
      exArtifact_def)

text \<open>
  Claim C2, as the code has it. When an artifact update replaces no slot (its index is
  missing or outside the bounds of the artifacts list, and its name is empty or no artifact
  has it), the update is appended: the new list holds the old artifacts and the update, and
  if any artifact in it carries an index, the whole list is sorted ascending by index, a
  missing index counting as 0.
\<close>

theorem appended_artifact_sorted:
  assumes "a_index a \<in> {Absent, Undefined, Null} \<or>
           (\<exists>i. a_index a = Present i \<and>
                (i < 0 \<or>
                 int (length (case t_artifacts (task d) of None \<Rightarrow> [] | Some xs \<Rightarrow> xs)) \<le> i))"
      and "\<not> truthy (a_name a) \<or>
           (\<forall>x\<in>set (case t_artifacts (task d) of None \<Rightarrow> [] | Some xs \<Rightarrow> xs).
              a_name x \<noteq> a_name a)"
  shows "\<exists>arts'.
           t_artifacts (task (applyUpdateToTaskAndHistory now d (ArtifactUpdate a))) = Some arts' \<and>
           set arts' = insert a (set (case t_artifacts (task d) of None \<Rightarrow> [] | Some xs \<Rightarrow> xs)) \<and>
           length arts' = Suc (length (case t_artifacts (task d) of None \<Rightarrow> [] | Some xs \<Rightarrow> xs)) \<and>
           (list_ex (\<lambda>x. defined (a_index x)) arts' \<longrightarrow> sorted (map indexKey arts'))"
  unfolding t_artifacts_apply applyArtifact_pushed[OF assms]
  by (auto simp: list_ex_iff)

theorem appended_artifact_sorted_witness:
  "t_artifacts (task (applyUpdateToTaskAndHistory ''T1''
      \<lparr> task = exTask Working Null [exArtifact (Present 5) ''five''], history = [] \<rparr>
      (ArtifactUpdate (exArtifact (Present 1) ''one''))))
     = Some [exArtifact (Present 1) ''one'', exArtifact (Present 5) ''five''] \<and>
   sorted (map indexKey [exArtifact (Present 1) ''one'', exArtifact (Present 5) ''five''])"
  using appended_artifact_sorted
    [of "exArtifact (Present 1) ''one''"
        "\<lparr> task = exTask Working Null [exArtifact (Present 5) ''five''], history = [] \<rparr>" "''T1''"]
  by (simp add: t_artifacts_apply applyArtifact_def replaceArtifact_def exTask_def
      exArtifact_def indexKey_def truthy_def)

text \<open>
  Claim C2 as stated fails where the update replaces a slot: a list sorted by index, with
  the indices 5 and 7, takes an update with index 1 into slot 1 and is left with the
  indices 5 and 1 in that order. It carries indices and is not sorted.
\<close>

theorem replaced_artifact_unsorted_counterexample:
  "list_ex (\<lambda>x. defined (a_index x))
     (the (t_artifacts (task (applyUpdateToTaskAndHistory ''T1''
        \<lparr> task = exTask Working Null
                   [exArtifact (Present 5) ''five'', exArtifact (Present 7) ''seven''],
          history = [] \<rparr>
        (ArtifactUpdate (exArtifact (Present 1) ''one''))))))
   \<and> \<not> sorted (map indexKey
     (the (t_artifacts (task (applyUpdateToTaskAndHistory ''T1''
        \<lparr> task = exTask Working Null
                   [exArtifact (Present 5) ''five'', exArtifact (Present 7) ''seven''],
          history = [] \<rparr>
        (ArtifactUpdate (exArtifact (Present 1) ''one'')))))))"
  by (simp add: t_artifacts_apply applyArtifact_def replaceArtifact_def exTask_def
      exArtifact_def indexKey_def)

section \<open>The update model: status\<close>

text \<open>
  Claim C5, as the code has it. For every snapshot and every status update,
  \<open>applyUpdateToTaskAndHistory\<close> takes the state from the update; takes the message from
  the update whenever the update has a message property, be its value a message, \<open>null\<close>
  or \<open>undefined\<close>, and keeps the existing message only when the update has no such
  property; sets the timestamp to the current time whatever the update carries; changes
  nothing else of the task; and appends a message to the end of history exactly when the
  update itself carries a message with role agent.
\<close>

theorem status_update_merge:
  "let r = applyUpdateToTaskAndHistory now d (StatusUpdate u) in
     state (t_status (task r)) = su_state u \<and>
     message (t_status (task r)) =
       (if su_message u = Absent then message (t_status (task d)) else su_message u) \<and>
     timestamp (t_status (task r)) = now \<and>
     task r = (task d) \<lparr> t_status := t_status (task r) \<rparr> \<and>
     (\<forall>m. su_message u = Present m \<and> m_role m = Agent \<longrightarrow> history r = history d @ [m]) \<and>
     ((\<nexists>m. su_message u = Present m \<and> m_role m = Agent) \<longrightarrow> history r = history d)"
  by (cases "su_message u")
     (simp_all add: applyUpdateToTaskAndHistory_def isTaskStatusUpdate_def Let_def)

theorem status_update_merge_witness:
  "history (applyUpdateToTaskAndHistory ''T1''
      \<lparr> task = exTask Submitted Null [], history = [exMessage User ''hello''] \<rparr>
      (StatusUpdate \<lparr> su_state = Working, su_message = Present (exMessage Agent ''on it''),
                      su_timestamp = Some ''T9'' \<rparr>))
     = [exMessage User ''hello'', exMessage Agent ''on it''] \<and>
   timestamp (t_status (task (applyUpdateToTaskAndHistory ''T1''
      \<lparr> task = exTask Submitted Null [], history = [exMessage User ''hello''] \<rparr>
      (StatusUpdate \<lparr> su_state = Working, su_message = Present (exMessage Agent ''on it''),
                      su_timestamp = Some ''T9'' \<rparr>)))) = ''T1'' \<and>
   message (t_status (task (applyUpdateToTaskAndHistory ''T2''
      \<lparr> task = exTask Working (Present (exMessage Agent ''on it'')) [],
        history = [exMessage User ''hello'', exMessage Agent ''on it''] \<rparr>
      (StatusUpdate \<lparr> su_state = Completed, su_message = Undefined,
                      su_timestamp = None \<rparr>)))) = Undefined \<and>
   history (applyUpdateToTaskAndHistory ''T2''
      \<lparr> task = exTask Working (Present (exMessage Agent ''on it'')) [],
        history = [exMessage User ''hello'', exMessage Agent ''on it''] \<rparr>
      (StatusUpdate \<lparr> su_state = Completed, su_message = Undefined,
                      su_timestamp = None \<rparr>))
     = [exMessage User ''hello'', exMessage Agent ''on it'']"
  using status_update_merge [of "''T1''"
      "\<lparr> task = exTask Submitted Null [], history = [exMessage User ''hello''] \<rparr>"
      "\<lparr> su_state = Working, su_message = Present (exMessage Agent ''on it''),
         su_timestamp = Some ''T9'' \<rparr>"]
    status_update_merge [of "''T2''"
      "\<lparr> task = exTask Working (Present (exMessage Agent ''on it'')) [],
         history = [exMessage User ''hello'', exMessage Agent ''on it''] \<rparr>"
      "\<lparr> su_state = Completed, su_message = Undefined, su_timestamp = None \<rparr>"]
  by (simp add: Let_def exMessage_def)

text \<open>
  Claim C5 as stated fails: a status update without a message leaves the existing message
  in the merged status; that message has role agent, and nothing is appended to history.
\<close>

theorem merged_agent_message_counterexample:
  "message (t_status (task (applyUpdateToTaskAndHistory ''T1''
      \<lparr> task = exTask InputRequired (Present (exMessage Agent ''which one?'')) [],
        history = [exMessage Agent ''which one?''] \<rparr>
      (StatusUpdate \<lparr> su_state = Working, su_message = Absent, su_timestamp = None \<rparr>))))
     = Present (exMessage Agent ''which one?'') \<and>
   m_role (exMessage Agent ''which one?'') = Agent \<and>
   history (applyUpdateToTaskAndHistory ''T1''
      \<lparr> task = exTask InputRequired (Present (exMessage Agent ''which one?'')) [],
        history = [exMessage Agent ''which one?''] \<rparr>
      (StatusUpdate \<lparr> su_state = Working, su_message = Absent, su_timestamp = None \<rparr>))
     = [exMessage Agent ''which one?'']"
  by (simp add: applyUpdateToTaskAndHistory_def isTaskStatusUpdate_def Let_def exTask_def
      exMessage_def)

section \<open>The request envelope\<close>

lemma typeof_TString: "typeof v = TString \<longleftrightarrow> (\<exists>s. v = Some (JStr s))"
  by (cases v rule: typeof.cases) auto

lemma typeof_TNumber: "typeof v = TNumber \<longleftrightarrow> (\<exists>n. v = Some (JNum n))"
  by (cases v rule: typeof.cases) auto

lemma typeof_TObject:
  "typeof v = TObject \<longleftrightarrow>
     v = Some JNull \<or> (\<exists>xs. v = Some (JArr xs)) \<or> (\<exists>kvs. v = Some (JObj kvs))"
  by (cases v rule: typeof.cases) auto

lemma isArray_iff: "isArray v \<longleftrightarrow> (\<exists>xs. v = Some (JArr xs))"
  by (cases v rule: isArray.cases) auto

text \<open>
  Claim C4, as the code has it. \<open>isValidJsonRpcRequest\<close> accepts a body if and only if it
  is an object whose version tag is the string 2.0, whose method is a string (the empty
  string too), whose id is a string, a number or null, and whose params are missing, null,
  an object or an array.
\<close>

theorem isValidJsonRpcRequest_iff:
  "isValidJsonRpcRequest body \<longleftrightarrow>
     (\<exists>kvs. body = JObj kvs) \<and>
     field body ''jsonrpc'' = Some (JStr ''2.0'') \<and>
     (\<exists>m. field body ''method'' = Some (JStr m)) \<and>
     (field body ''id'' = Some JNull \<or> (\<exists>s. field body ''id'' = Some (JStr s))
        \<or> (\<exists>n. field body ''id'' = Some (JNum n))) \<and>
     (field body ''params'' = None \<or> field body ''params'' = Some JNull
        \<or> (\<exists>kvs. field body ''params'' = Some (JObj kvs))
        \<or> (\<exists>xs. field body ''params'' = Some (JArr xs)))"
  unfolding isValidJsonRpcRequest_def typeof_TString typeof_TNumber typeof_TObject isArray_iff
  by (cases body) auto

text \<open>
  Claim C4 as stated fails: an envelope whose method is the empty string is accepted, and
  the conditions of the claim do not hold of it.
\<close>

theorem empty_method_counterexample:
  "isValidJsonRpcRequest
     (JObj [(''jsonrpc'', JStr ''2.0''), (''method'', JStr ''''), (''id'', JNum 1)]) \<and>
   \<not> specValidEnvelope
     (JObj [(''jsonrpc'', JStr ''2.0''), (''method'', JStr ''''), (''id'', JNum 1)])"
  by (simp add: isValidJsonRpcRequest_def specValidEnvelope_def)

section \<open>The store and the clock\<close>

lemma save_accepted:
  "acceptsNext w \<Longrightarrow>
     save w d = (None, w \<lparr> tasks := (tasks w)(t_id (task d) \<mapsto> d), faults := tl (faults w) \<rparr>)"
  by (cases "faults w") (auto simp: acceptsNext_def save_def split: option.splits)

lemma save_accepting:
  assumes "accepting w"
  shows "fst (save w d) = None"
    and "accepting (snd (save w d))"
    and "tasks (snd (save w d)) = (tasks w)(t_id (task d) \<mapsto> d)"
  using assms
  by (cases "faults w"; auto simp: accepting_def save_def split: option.splits)+

lemma accepting_reads [simp]: "accepting (w \<lparr> reads := n \<rparr>) = accepting w"
  by (simp add: accepting_def)

lemma tasks_reads_save:
  "accepting w \<Longrightarrow>
     tasks (snd (save (w \<lparr> reads := n \<rparr>) d)) = (tasks w)(t_id (task d) \<mapsto> d)"
  using save_accepting(3)[of "w \<lparr> reads := n \<rparr>" d] by simp

lemma applyUpdateNow_status:
  "applyUpdateNow w d (StatusUpdate u) =
     (applyUpdateToTaskAndHistory (clock w (reads w)) d (StatusUpdate u),
      w \<lparr> reads := Suc (reads w) \<rparr>)"
  by (simp add: applyUpdateNow_def getCurrentTimestamp_def isTaskStatusUpdate_def)

lemma applyUpdateNow_other:
  "\<not> isTaskStatusUpdate u \<Longrightarrow>
     applyUpdateNow w d u = (applyUpdateToTaskAndHistory (clock w (reads w)) d u, w)"
  by (simp add: applyUpdateNow_def)

lemma apply_status_fields:
  "state (t_status (task (applyUpdateToTaskAndHistory now d (StatusUpdate u)))) = su_state u"
  "t_id (task (applyUpdateToTaskAndHistory now d (StatusUpdate u))) = t_id (task d)"
  "message (t_status (task (applyUpdateToTaskAndHistory now d (StatusUpdate u)))) =
     (case su_message u of Absent \<Rightarrow> message (t_status (task d)) | m \<Rightarrow> m)"
  "history (applyUpdateToTaskAndHistory now d (StatusUpdate u)) =
     (case su_message u of
        Present m \<Rightarrow> if m_role m = Agent then history d @ [m] else history d
      | _ \<Rightarrow> history d)"
  by (simp_all add: applyUpdateToTaskAndHistory_def isTaskStatusUpdate_def Let_def)

lemma apply_other_fields:
  "\<not> isTaskStatusUpdate u \<Longrightarrow>
     t_status (task (applyUpdateToTaskAndHistory now d u)) = t_status (task d)"
  "\<not> isTaskStatusUpdate u \<Longrightarrow>
     t_id (task (applyUpdateToTaskAndHistory now d u)) = t_id (task d)"
  by (simp_all add: applyUpdateToTaskAndHistory_def Let_def)

section \<open>The task lifecycle controller\<close>

text \<open>
  Claim C8. For every task in the store whose state is completed, failed or canceled,
  \<open>loadOrCreateTaskAndHistory\<close> with a new incoming message, the store accepting the
  save, returns a snapshot whose state is submitted, whose status message is null and
  whose history is the previous history with the incoming message appended at the end;
  the task keeps its id, and the store holds the returned snapshot under it.
\<close>

theorem resubmission_resets_and_keeps_history:
  assumes "tasks w taskId = Some data"
      and "state (t_status (task data)) \<in> {Completed, Failed, Canceled}"
      and "acceptsNext w"
  shows "\<exists>snap w'.
           loadOrCreateTaskAndHistory w taskId msg sessionId md = (Inr snap, w') \<and>
           state (t_status (task snap)) = Submitted \<and>
           message (t_status (task snap)) = Null \<and>
           history snap = history data @ [msg] \<and>
           t_id (task snap) = t_id (task data) \<and>
           tasks w' (t_id (task snap)) = Some snap"
proof -
  let ?d = "\<lparr> task = task data, history = history data @ [msg] \<rparr>"
  let ?u = "StatusUpdate \<lparr> su_state = Submitted, su_message = Null, su_timestamp = None \<rparr>"
  let ?d' = "applyUpdateToTaskAndHistory (clock w (reads w)) ?d ?u"
  let ?w1 = "w \<lparr> reads := Suc (reads w) \<rparr>"
  have "acceptsNext ?w1"
    using assms(3) by (simp add: acceptsNext_def)
  then have s: "save ?w1 ?d' =
      (None, ?w1 \<lparr> tasks := (tasks ?w1)(t_id (task ?d') \<mapsto> ?d'),
                   faults := tl (faults ?w1) \<rparr>)"
    by (rule save_accepted)
  have fin: "state (t_status (task data)) \<in> set finalStates"
    using assms(2) by (auto simp: finalStates_def)
  have "loadOrCreateTaskAndHistory w taskId msg sessionId md =
          (Inr ?d', ?w1 \<lparr> tasks := (tasks ?w1)(t_id (task ?d') \<mapsto> ?d'),
                           faults := tl (faults ?w1) \<rparr>)"
    using assms(1) fin s
    by (simp add: loadOrCreateTaskAndHistory_def load_def applyUpdateNow_status)
  then show ?thesis
    by (simp add: apply_status_fields)
qed

theorem resubmission_resets_and_keeps_history_witness:
  "\<exists>snap w'.
     loadOrCreateTaskAndHistory
       (exWorld [\<lparr> task = exTask Completed (Present (exMessage Agent ''m2'')) [],
                   history = [exMessage User ''m1'', exMessage Agent ''m2''] \<rparr>] [])
       ''t1'' (exMessage User ''m3'') None None = (Inr snap, w') \<and>
     state (t_status (task snap)) = Submitted \<and>
     message (t_status (task snap)) = Null \<and>
     history snap = [exMessage User ''m1'', exMessage Agent ''m2'', exMessage User ''m3''] \<and>
     t_id (task snap) = ''t1'' \<and>
     tasks w' (t_id (task snap)) = Some snap"
proof -
  let ?d = "\<lparr> task = exTask Completed (Present (exMessage Agent ''m2'')) [],
              history = [exMessage User ''m1'', exMessage Agent ''m2''] \<rparr>"
  have h1: "tasks (exWorld [?d] []) ''t1'' = Some ?d"
    by (simp add: exWorld_def exTask_def)
  have h2: "state (t_status (task ?d)) \<in> {Completed, Failed, Canceled}"
    by (simp add: exTask_def)
  have h3: "acceptsNext (exWorld [?d] [])"
    by (simp add: acceptsNext_def exWorld_def)
  from resubmission_resets_and_keeps_history [OF h1 h2 h3, of "exMessage User ''m3''" None None]
  show ?thesis by (simp add: exTask_def)
qed

section \<open>Cancellation\<close>

text \<open>
  Claim C9, as the code has it. \<open>taskCancel\<close> on a task whose state is already completed,
  failed or canceled, called with a request id that is not null, returns the current task
  unchanged as a success result; whatever the request id, it writes nothing to the store
  and leaves the cancellation flags as they are.
\<close>

theorem cancel_finished_task:
  assumes "tasks w taskId = Some data"
      and "state (t_status (task data)) \<in> {Completed, Failed, Canceled}"
  shows "taskCancel w (Some r) taskId =
           (Inr \<lparr> r_jsonrpc = ''2.0'', r_id = r, r_result = Inl (task data) \<rparr>, w) \<and>
         snd (taskCancel w rid taskId) = w"
  using assms
  by (auto simp: taskCancel_def load_def finalStates_def createSuccessResponse_def)

theorem cancel_finished_task_witness:
  "taskCancel (exWorld [\<lparr> task = exTask Completed Null [], history = [] \<rparr>] [])
       (Some (IdNumber 7)) ''t1'' =
     (Inr \<lparr> r_jsonrpc = ''2.0'', r_id = IdNumber 7,
            r_result = Inl (exTask Completed Null []) \<rparr>,
      exWorld [\<lparr> task = exTask Completed Null [], history = [] \<rparr>] []) \<and>
   snd (taskCancel (exWorld [\<lparr> task = exTask Completed Null [], history = [] \<rparr>] [])
       None ''t1'') =
     exWorld [\<lparr> task = exTask Completed Null [], history = [] \<rparr>] []"
proof -
  let ?d = "\<lparr> task = exTask Completed Null [], history = [] \<rparr>"
  have h1: "tasks (exWorld [?d] []) ''t1'' = Some ?d"
    by (simp add: exWorld_def exTask_def)
  have h2: "state (t_status (task ?d)) \<in> {Completed, Failed, Canceled}"
    by (simp add: exTask_def)
  from cancel_finished_task [OF h1 h2, of "IdNumber 7" None]
  show ?thesis by simp
qed

text \<open>
  Claim C9 as stated fails for a request whose id is null: the response cannot be built,
  and cancelling the finished task ends in an internal error, not in a success result.
\<close>

theorem cancel_finished_task_null_id_counterexample:
  "fst (taskCancel (exWorld [\<lparr> task = exTask Completed Null [], history = [] \<rparr>] [])
          None ''t1'')
   = Inl (internalError ''Cannot create a success response with a null ID'')"
  by (simp add: taskCancel_def load_def finalStates_def createSuccessResponse_def
      exWorld_def exTask_def)

text \<open>
  Claim C3, as the code has it. \<open>taskCancel\<close> on a task whose state is not completed,
  failed or canceled, the store accepting the save of the canceled snapshot, ends with the
  task id removed from the cancellation flags: the flag added before the save is cleared
  after it.
\<close>

theorem cancel_clears_flag_after_save:
  assumes "tasks w taskId = Some data"
      and "state (t_status (task data)) \<notin> {Completed, Failed, Canceled}"
      and "acceptsNext w"
  shows "activeCancellations (snd (taskCancel w rid taskId)) =
           activeCancellations w - {taskId}"
proof -
  let ?w1 = "w \<lparr> activeCancellations := insert taskId (activeCancellations w) \<rparr>"
  let ?d' = "applyUpdateToTaskAndHistory (clock w (reads w)) data (StatusUpdate cancelUpdate)"
  let ?w2 = "?w1 \<lparr> reads := Suc (reads w) \<rparr>"
  have "acceptsNext ?w2"
    using assms(3) by (simp add: acceptsNext_def)
  then have "save ?w2 ?d' =
      (None, ?w2 \<lparr> tasks := (tasks ?w2)(t_id (task ?d') \<mapsto> ?d'),
                   faults := tl (faults ?w2) \<rparr>)"
    by (rule save_accepted)
  with assms(1,2) show ?thesis
    by (auto simp: taskCancel_def load_def finalStates_def applyUpdateNow_status)
qed

theorem cancel_clears_flag_after_save_witness:
  "activeCancellations
     (snd (taskCancel (exWorld [\<lparr> task = exTask Working Null [], history = [] \<rparr>] [])
             (Some (IdNumber 7)) ''t1'')) = {}"
proof -
  let ?d = "\<lparr> task = exTask Working Null [], history = [] \<rparr>"
  have h1: "tasks (exWorld [?d] []) ''t1'' = Some ?d"
    by (simp add: exWorld_def exTask_def)
  have h2: "state (t_status (task ?d)) \<notin> {Completed, Failed, Canceled}"
    by (simp add: exTask_def)
  have h3: "acceptsNext (exWorld [?d] [])"
    by (simp add: acceptsNext_def exWorld_def)
  from cancel_clears_flag_after_save [OF h1 h2 h3, of "Some (IdNumber 7)"]
  show ?thesis by (simp add: exWorld_def)
qed

text \<open>
  Claim C3 as stated fails: when the store rejects the save, \<open>taskCancel\<close> ends with the
  store's failure, and the task id, which was not flagged before the call, is left in the
  cancellation flags.
\<close>

theorem cancel_save_failure_counterexample:
  "''t1'' \<notin> activeCancellations
      (exWorld [\<lparr> task = exTask Working Null [], history = [] \<rparr>] [Some ''store down'']) \<and>
   fst (taskCancel
      (exWorld [\<lparr> task = exTask Working Null [], history = [] \<rparr>] [Some ''store down''])
      (Some (IdNumber 7)) ''t1'') = Inl (OtherError ''store down'') \<and>
   ''t1'' \<in> activeCancellations (snd (taskCancel
      (exWorld [\<lparr> task = exTask Working Null [], history = [] \<rparr>] [Some ''store down''])
      (Some (IdNumber 7)) ''t1''))"
  by (simp add: taskCancel_def load_def finalStates_def applyUpdateNow_status save_def
      exWorld_def exTask_def)

section \<open>The streaming loop\<close>

lemma awaited_simps [simp]:
  "currentData (awaited s) = currentData s"
  "lastEventWasFinal (awaited s) = lastEventWasFinal s"
  "sent (awaited s) = sent s"
  "closed (awaited s) = closed s"
  "wld (awaited s) = wld s"
  by (simp_all add: awaited_def)

lemma awaited_open:
  "\<not> closed s \<Longrightarrow> pending (awaited s) = []"
  "\<not> closed s \<Longrightarrow> written (awaited s) = written s @ pending s"
  by (simp_all add: awaited_def)

lemma sendEvent_simps [simp]:
  "currentData (sendEvent e s) = currentData s"
  "lastEventWasFinal (sendEvent e s) = lastEventWasFinal s"
  "sent (sendEvent e s) = sent s @ [e]"
  "pending (sendEvent e s) = pending s @ [e]"
  "written (sendEvent e s) = written s"
  "closed (sendEvent e s) = closed s"
  "wld (sendEvent e s) = wld s"
  by (simp_all add: sendEvent_def)

lemma yielded_map_Yield [simp]: "yielded (map Yield us) = us"
  by (induction us) simp_all

lemma thrown_map_Yield [simp]: "thrown (map Yield us) = None"
  by (induction us) simp_all

lemma final_eventShape: "final e = snd (eventShape e)"
  by (cases e) (simp_all add: eventShape_def)

lemma claimedEvents_nonfinal:
  "\<forall>x. StatusUpdate x \<in> set us \<longrightarrow> su_state x \<notin> set terminalStates \<Longrightarrow>
     \<forall>p\<in>set (claimedEvents us). \<not> snd p"
  by (induction us rule: claimedEvents.induct) (auto simp: terminalStates_def)

lemma claimedEvents_final:
  "\<exists>x. StatusUpdate x \<in> set us \<and> su_state x \<in> set terminalStates \<Longrightarrow>
     claimedEvents us \<noteq> [] \<and> snd (last (claimedEvents us))"
  by (induction us rule: claimedEvents.induct) (auto simp: terminalStates_def)

lemma claimedEvents_some_final:
  "list_ex snd (claimedEvents us) \<longleftrightarrow>
     (\<exists>x. StatusUpdate x \<in> set us \<and> su_state x \<in> set terminalStates)"
  by (induction us rule: claimedEvents.induct) (auto simp: terminalStates_def)

text \<open>One turn of the loop, for each kind of update, when the store accepts the save.\<close>

lemma drain_status:
  assumes "accepting (wld s)"
  shows "drain (Some r) tid (Yield (StatusUpdate x) # rest) s =
     (let d = applyUpdateToTaskAndHistory (clock (wld s) (reads (wld s))) (currentData s)
                (StatusUpdate x);
          w = snd (save ((wld s) \<lparr> reads := Suc (reads (wld s)) \<rparr>) d);
          fin = (su_state x \<in> set terminalStates);
          s' = (sendEvent
                  \<lparr> r_jsonrpc = ''2.0'', r_id = r,
                    r_result = TaskStatusUpdateEvent tid (t_status (task d)) fin \<rparr>
                  (awaited ((awaited s) \<lparr> currentData := d, wld := w \<rparr>)))
                 \<lparr> lastEventWasFinal := fin \<rparr>
      in if fin then (None, s') else drain (Some r) tid rest s')"
proof -
  let ?w1 = "(wld s) \<lparr> reads := Suc (reads (wld s)) \<rparr>"
  let ?d = "applyUpdateToTaskAndHistory (clock (wld s) (reads (wld s))) (currentData s)
                (StatusUpdate x)"
  have "fst (save ?w1 ?d) = None"
    using assms by (simp add: save_accepting(1))
  then obtain w2 where "save ?w1 ?d = (None, w2)"
    by (cases "save ?w1 ?d") auto
  then show ?thesis
    by (simp add: drain.simps applyUpdateNow_status isTaskStatusUpdate_def
        createSuccessResponse_def createTaskStatusEvent_def apply_status_fields Let_def)
qed

lemma drain_artifact:
  assumes "accepting (wld s)"
  shows "drain (Some r) tid (Yield (ArtifactUpdate a) # rest) s =
     (let d = applyUpdateToTaskAndHistory (clock (wld s) (reads (wld s))) (currentData s)
                (ArtifactUpdate a);
          w = snd (save (wld s) d);
          s' = (sendEvent
                  \<lparr> r_jsonrpc = ''2.0'', r_id = r,
                    r_result = TaskArtifactUpdateEvent tid (updatedArtifact (task d) a)
                                 False \<rparr>
                  (awaited ((awaited s) \<lparr> currentData := d, wld := w \<rparr>)))
                 \<lparr> lastEventWasFinal := False \<rparr>
      in drain (Some r) tid rest s')"
proof -
  let ?d = "applyUpdateToTaskAndHistory (clock (wld s) (reads (wld s))) (currentData s)
                (ArtifactUpdate a)"
  have "fst (save (wld s) ?d) = None"
    using assms by (simp add: save_accepting(1))
  then obtain w2 where "save (wld s) ?d = (None, w2)"
    by (cases "save (wld s) ?d") auto
  then show ?thesis
    by (simp add: drain.simps applyUpdateNow_other isTaskStatusUpdate_def
        isArtifactUpdate_def createSuccessResponse_def createTaskArtifactEvent_def Let_def)
qed

lemma drain_unknown:
  assumes "accepting (wld s)"
  shows "drain rid tid (Yield UnknownUpdate # rest) s =
     drain rid tid rest
       (awaited ((awaited s)
          \<lparr> currentData := applyUpdateToTaskAndHistory
                               (clock (wld s) (reads (wld s))) (currentData s) UnknownUpdate,
            wld := snd (save (wld s) (applyUpdateToTaskAndHistory
                               (clock (wld s) (reads (wld s))) (currentData s)
                               UnknownUpdate)) \<rparr>))"
proof -
  let ?d = "applyUpdateToTaskAndHistory (clock (wld s) (reads (wld s))) (currentData s)
                UnknownUpdate"
  have "fst (save (wld s) ?d) = None"
    using assms by (simp add: save_accepting(1))
  then obtain w2 where "save (wld s) ?d = (None, w2)"
    by (cases "save (wld s) ?d") auto
  then show ?thesis
    by (simp add: drain.simps applyUpdateNow_other isTaskStatusUpdate_def
        isArtifactUpdate_def Let_def)
qed

text \<open>
  The whole loop, for a request id that is not null and a store that accepts every save:
  the events handed to \<open>sendEvent\<close> are the claimed ones, and the loop is left by the
  handler's failure exactly when no final event came before it.
\<close>

lemma drain_accepting:
  assumes "accepting (wld s)"
  shows "\<exists>s' new.
           drain (Some r) tid steps s =
             (if list_ex snd (claimedEvents (yielded steps)) then None else thrown steps, s') \<and>
           accepting (wld s') \<and> closed s' = closed s \<and>
           sent s' = sent s @ new \<and>
           map (\<lambda>e. eventShape (r_result e)) new = claimedEvents (yielded steps) \<and>
           (\<forall>e\<in>set new. r_id e = r \<and> e_id (r_result e) = tid) \<and>
           (new = [] \<longrightarrow> lastEventWasFinal s' = lastEventWasFinal s) \<and>
           (new \<noteq> [] \<longrightarrow> lastEventWasFinal s' = final (r_result (last new)))"
  using assms
proof (induction steps arbitrary: s rule: yielded.induct)
  case 1
  then show ?case by (simp add: drain.simps)
next
  case (3 e rest)
  then show ?case by (simp add: drain.simps)
next
  case (2 u rest)
  show ?case
  proof (cases u)
    case (StatusUpdate x)
    let ?d = "applyUpdateToTaskAndHistory (clock (wld s) (reads (wld s))) (currentData s)
                (StatusUpdate x)"
    let ?w = "snd (save ((wld s) \<lparr> reads := Suc (reads (wld s)) \<rparr>) ?d)"
    let ?fin = "su_state x \<in> set terminalStates"
    let ?e = "\<lparr> r_jsonrpc = ''2.0'', r_id = r,
                r_result = TaskStatusUpdateEvent tid (t_status (task ?d)) ?fin \<rparr>"
    let ?s = "(sendEvent ?e (awaited ((awaited s) \<lparr> currentData := ?d, wld := ?w \<rparr>)))
                \<lparr> lastEventWasFinal := ?fin \<rparr>"
    have acc: "accepting (wld ?s)"
      using "2.prems" by (simp add: save_accepting(2))
    have shape: "eventShape (r_result ?e) = (Some (su_state x), ?fin)"
      by (simp add: eventShape_def apply_status_fields)
    show ?thesis
    proof (cases ?fin)
      case True
      then have "drain (Some r) tid (Yield u # rest) s = (None, ?s)"
        using drain_status[OF "2.prems", of r tid x rest] StatusUpdate
        by (simp add: Let_def)
      moreover have "claimedEvents (yielded (Yield u # rest)) = [(Some (su_state x), True)]"
        using True StatusUpdate by (simp add: terminalStates_def)
      ultimately show ?thesis
        using acc shape True by (intro exI[of _ ?s] exI[of _ "[?e]"]) simp
    next
      case False
      then have step: "drain (Some r) tid (Yield u # rest) s = drain (Some r) tid rest ?s"
        using drain_status[OF "2.prems", of r tid x rest] StatusUpdate
        by (simp add: Let_def)
      from "2.IH"[OF acc] obtain s' new where
        ih: "drain (Some r) tid rest ?s =
               (if list_ex snd (claimedEvents (yielded rest)) then None else thrown rest, s')"
            "accepting (wld s')"
            "closed s' = closed ?s" "sent s' = sent ?s @ new"
            "map (\<lambda>e. eventShape (r_result e)) new = claimedEvents (yielded rest)"
            "\<forall>e\<in>set new. r_id e = r \<and> e_id (r_result e) = tid"
            "new = [] \<longrightarrow> lastEventWasFinal s' = lastEventWasFinal ?s"
            "new \<noteq> [] \<longrightarrow> lastEventWasFinal s' = final (r_result (last new))"
        by blast
      have "claimedEvents (yielded (Yield u # rest)) =
              (Some (su_state x), False) # claimedEvents (yielded rest)"
        using False StatusUpdate by (simp add: terminalStates_def)
      then show ?thesis
        unfolding step using ih shape False
        by (intro exI[of _ s'] exI[of _ "?e # new"]) auto
    qed
  next
    case (ArtifactUpdate a)
    let ?d = "applyUpdateToTaskAndHistory (clock (wld s) (reads (wld s))) (currentData s)
                (ArtifactUpdate a)"
    let ?e = "\<lparr> r_jsonrpc = ''2.0'', r_id = r,
                r_result = TaskArtifactUpdateEvent tid (updatedArtifact (task ?d) a) False \<rparr>"
    let ?s = "(sendEvent ?e
                 (awaited ((awaited s) \<lparr> currentData := ?d, wld := snd (save (wld s) ?d) \<rparr>)))
                \<lparr> lastEventWasFinal := False \<rparr>"
    have acc: "accepting (wld ?s)"
      using "2.prems" by (simp add: save_accepting(2))
    have step: "drain (Some r) tid (Yield u # rest) s = drain (Some r) tid rest ?s"
      using drain_artifact[OF "2.prems", of r tid a rest] ArtifactUpdate
      by (simp add: Let_def)
    from "2.IH"[OF acc] obtain s' new where
      ih: "drain (Some r) tid rest ?s =
             (if list_ex snd (claimedEvents (yielded rest)) then None else thrown rest, s')"
          "accepting (wld s')"
          "closed s' = closed ?s" "sent s' = sent ?s @ new"
          "map (\<lambda>e. eventShape (r_result e)) new = claimedEvents (yielded rest)"
          "\<forall>e\<in>set new. r_id e = r \<and> e_id (r_result e) = tid"
          "new = [] \<longrightarrow> lastEventWasFinal s' = lastEventWasFinal ?s"
          "new \<noteq> [] \<longrightarrow> lastEventWasFinal s' = final (r_result (last new))"
      by blast
    show ?thesis
      unfolding step using ih ArtifactUpdate
      by (intro exI[of _ s'] exI[of _ "?e # new"]) (auto simp: eventShape_def)
  next
    case UnknownUpdate
    let ?d = "applyUpdateToTaskAndHistory (clock (wld s) (reads (wld s))) (currentData s)
                UnknownUpdate"
    let ?s = "awaited ((awaited s) \<lparr> currentData := ?d, wld := snd (save (wld s) ?d) \<rparr>)"
    have acc: "accepting (wld ?s)"
      using "2.prems" by (simp add: save_accepting(2))
    have step: "drain (Some r) tid (Yield u # rest) s = drain (Some r) tid rest ?s"
      using drain_unknown[OF "2.prems", of "Some r" tid rest] UnknownUpdate
      by simp
    from "2.IH"[OF acc] obtain s' new where
      ih: "drain (Some r) tid rest ?s =
             (if list_ex snd (claimedEvents (yielded rest)) then None else thrown rest, s')"
          "accepting (wld s')"
          "closed s' = closed ?s" "sent s' = sent ?s @ new"
          "map (\<lambda>e. eventShape (r_result e)) new = claimedEvents (yielded rest)"
          "\<forall>e\<in>set new. r_id e = r \<and> e_id (r_result e) = tid"
          "new = [] \<longrightarrow> lastEventWasFinal s' = lastEventWasFinal ?s"
          "new \<noteq> [] \<longrightarrow> lastEventWasFinal s' = final (r_result (last new))"
      by blast
    show ?thesis
      unfolding step using ih UnknownUpdate
      by (intro exI[of _ s'] exI[of _ new]) auto
  qed
qed

text \<open>
  After a status update whose state ends the stream the loop is left: what the handler
  would do next changes nothing, whatever the request id and the store.
\<close>

lemma drain_stop:
  assumes "su_state x \<in> set terminalStates"
  shows "drain rid tid (pre @ Yield (StatusUpdate x) # rest) s =
         drain rid tid (pre @ [Yield (StatusUpdate x)]) s"
proof (induction pre arbitrary: s rule: yielded.induct)
  case 1
  show ?case
    using assms
    by (simp add: drain.simps applyUpdateNow_status isTaskStatusUpdate_def
        apply_status_fields Let_def split: prod.splits option.splits sum.splits)
next
  case (3 e pre)
  show ?case by (simp add: drain.simps)
next
  case (2 u pre)
  show ?case
    by (simp add: drain.simps "2.IH" Let_def split: prod.splits option.splits sum.splits)
qed

section \<open>The end of the loop, and the loading before it\<close>

lemma drain_nonfinal:
  assumes "accepting (wld s)"
      and "\<forall>x. StatusUpdate x \<in> set (yielded steps) \<longrightarrow> su_state x \<notin> set terminalStates"
      and "state (t_status (task (currentData s))) \<notin> set terminalStates"
  shows "state (t_status (task (currentData (snd (drain (Some r) tid steps s)))))
           \<notin> set terminalStates"
  using assms
proof (induction steps arbitrary: s rule: yielded.induct)
  case 1
  then show ?case by (simp add: drain.simps)
next
  case (3 e rest)
  then show ?case by (simp add: drain.simps)
next
  case (2 u rest)
  show ?case
  proof (cases u)
    case (StatusUpdate x)
    then have nf: "su_state x \<notin> set terminalStates"
      using "2.prems"(2) by simp
    show ?thesis
      using StatusUpdate nf "2.prems"
      by (simp add: drain_status Let_def)
         (rule "2.IH", simp_all add: save_accepting(2) apply_status_fields)
  next
    case (ArtifactUpdate a)
    show ?thesis
      using ArtifactUpdate "2.prems"
      by (simp add: drain_artifact Let_def)
         (rule "2.IH",
          simp_all add: save_accepting(2) apply_other_fields isTaskStatusUpdate_def)
  next
    case UnknownUpdate
    show ?thesis
      using UnknownUpdate "2.prems"
      by (simp add: drain_unknown)
         (rule "2.IH",
          simp_all add: save_accepting(2) apply_other_fields isTaskStatusUpdate_def)
  qed
qed

text \<open>
  When the loop is left without a final event, nothing is pending: every event handed to
  \<open>sendEvent\<close> was followed by an await of the callback.
\<close>

lemma drain_flushed:
  assumes "accepting (wld s)"
      and "\<forall>x. StatusUpdate x \<in> set (yielded steps) \<longrightarrow> su_state x \<notin> set terminalStates"
      and "\<not> closed s"
      and "written s @ pending s = sent s"
  shows "pending (snd (drain (Some r) tid steps s)) = [] \<and>
         written (snd (drain (Some r) tid steps s)) = sent (snd (drain (Some r) tid steps s))"
  using assms
proof (induction steps arbitrary: s rule: yielded.induct)
  case 1
  then show ?case by (simp add: drain.simps awaited_open)
next
  case (3 e rest)
  then show ?case by (simp add: drain.simps awaited_open)
next
  case (2 u rest)
  show ?case
  proof (cases u)
    case (StatusUpdate x)
    then have nf: "su_state x \<notin> set terminalStates"
      using "2.prems"(2) by simp
    show ?thesis
      using StatusUpdate nf "2.prems"
      by (simp add: drain_status Let_def)
         (rule "2.IH", simp_all add: save_accepting(2) awaited_open)
  next
    case (ArtifactUpdate a)
    show ?thesis
      using ArtifactUpdate "2.prems"
      by (simp add: drain_artifact Let_def)
         (rule "2.IH", simp_all add: save_accepting(2) awaited_open)
  next
    case UnknownUpdate
    show ?thesis
      using UnknownUpdate "2.prems"
      by (simp add: drain_unknown)
         (rule "2.IH", simp_all add: save_accepting(2) awaited_open)
  qed
qed

lemma forceFinal_accepting:
  assumes "accepting (wld s)"
      and "state (t_status (task (currentData s))) \<notin> set terminalStates"
  shows "forceFinal (Some r) tid s =
     (let d = applyUpdateToTaskAndHistory (clock (wld s) (reads (wld s))) (currentData s)
                (StatusUpdate \<lparr> su_state = Completed, su_message = Absent,
                                su_timestamp = None \<rparr>);
          w = snd (save ((wld s) \<lparr> reads := Suc (reads (wld s)) \<rparr>) d)
      in (None, sendEvent
                  \<lparr> r_jsonrpc = ''2.0'', r_id = r,
                    r_result = TaskStatusUpdateEvent tid (t_status (task d)) True \<rparr>
                  (awaited (s \<lparr> currentData := d, wld := w \<rparr>))))"
proof -
  let ?w1 = "(wld s) \<lparr> reads := Suc (reads (wld s)) \<rparr>"
  let ?d = "applyUpdateToTaskAndHistory (clock (wld s) (reads (wld s))) (currentData s)
                (StatusUpdate \<lparr> su_state = Completed, su_message = Absent,
                                su_timestamp = None \<rparr>)"
  have "fst (save ?w1 ?d) = None"
    using assms(1) by (simp add: save_accepting(1))
  then obtain w2 where "save ?w1 ?d = (None, w2)"
    by (cases "save ?w1 ?d") auto
  then show ?thesis
    using assms(2)
    by (simp add: forceFinal_def applyUpdateNow_status createSuccessResponse_def
        createTaskStatusEvent_def Let_def)
qed

lemma catchBlock_sends:
  "\<exists>s'. catchBlock (Some r) tid e s = (None, s') \<and>
         sent s' = sent s @ [\<lparr> r_jsonrpc = ''2.0'', r_id = r,
                                r_result = TaskStatusUpdateEvent tid
                                             (t_status (task (currentData s'))) True \<rparr>] \<and>
         state (t_status (task (currentData s'))) = Failed \<and>
         closed s' = closed s"
  by (cases "save ((wld s) \<lparr> reads := Suc (reads (wld s)) \<rparr>)
               (applyUpdateToTaskAndHistory (clock (wld s) (reads (wld s))) (currentData s)
                  (StatusUpdate (createTaskFailureStatusUpdate e)))")
     (simp add: catchBlock_def applyUpdateNow_status createSuccessResponse_def
        createTaskStatusEvent_def apply_status_fields Let_def,
      simp add: createTaskFailureStatusUpdate_def)

text \<open>
  With a store that accepts the saves, \<open>loadOrCreateTaskAndHistory\<close> returns a snapshot,
  and its state is none of the four states that end a stream.
\<close>

lemma loadOrCreate_accepting:
  assumes "accepting w"
  shows "\<exists>data w1. loadOrCreateTaskAndHistory w taskId msg sid md = (Inr data, w1) \<and>
           accepting w1 \<and> state (t_status (task data)) \<notin> set terminalStates"
proof -
  have sv: "\<And>w' d. accepting w' \<Longrightarrow> \<exists>w2. save w' d = (None, w2) \<and> accepting w2"
    using save_accepting(1,2) by (metis prod.collapse)
  show ?thesis
  proof (cases "tasks w taskId")
    case None
    let ?d = "\<lparr> task = \<lparr> t_id = taskId, t_sessionId = sid,
                  t_status = \<lparr> state = Submitted, timestamp = clock w (reads w),
                               message = Null \<rparr>,
                  t_artifacts = Some [],
                  t_metadata = Some (case md of None \<Rightarrow> [] | Some m \<Rightarrow> m) \<rparr>,
                history = [msg] \<rparr>"
    from sv[of "w \<lparr> reads := Suc (reads w) \<rparr>" ?d] assms obtain w2 where
      "save (w \<lparr> reads := Suc (reads w) \<rparr>) ?d = (None, w2)" "accepting w2"
      by auto
    then show ?thesis
      using None
      by (simp add: loadOrCreateTaskAndHistory_def load_def getCurrentTimestamp_def
          terminalStates_def)
  next
    case (Some loaded)
    let ?d = "\<lparr> task = task loaded, history = history loaded @ [msg] \<rparr>"
    consider (fin) "state (t_status (task loaded)) \<in> set finalStates"
      | (inp) "state (t_status (task loaded)) \<notin> set finalStates"
              "state (t_status (task loaded)) = InputRequired"
      | (other) "state (t_status (task loaded)) \<notin> set finalStates"
                "state (t_status (task loaded)) \<noteq> InputRequired"
      by blast
    then show ?thesis
    proof cases
      case fin
      let ?d' = "applyUpdateToTaskAndHistory (clock w (reads w)) ?d
                   (StatusUpdate \<lparr> su_state = Submitted, su_message = Null,
                                   su_timestamp = None \<rparr>)"
      from sv[of "w \<lparr> reads := Suc (reads w) \<rparr>" ?d'] assms obtain w2 where
        "save (w \<lparr> reads := Suc (reads w) \<rparr>) ?d' = (None, w2)" "accepting w2"
        by auto
      then show ?thesis
        using Some fin
        by (simp add: loadOrCreateTaskAndHistory_def load_def applyUpdateNow_status
            apply_status_fields terminalStates_def)
    next
      case inp
      let ?d' = "applyUpdateToTaskAndHistory (clock w (reads w)) ?d
                   (StatusUpdate \<lparr> su_state = Working, su_message = Absent,
                                   su_timestamp = None \<rparr>)"
      from sv[of "w \<lparr> reads := Suc (reads w) \<rparr>" ?d'] assms obtain w2 where
        "save (w \<lparr> reads := Suc (reads w) \<rparr>) ?d' = (None, w2)" "accepting w2"
        by auto
      then show ?thesis
        using Some inp
        by (simp add: loadOrCreateTaskAndHistory_def load_def applyUpdateNow_status
            apply_status_fields terminalStates_def finalStates_def)
    next
      case other
      from sv[of w ?d] assms obtain w2 where "save w ?d = (None, w2)" "accepting w2"
        by auto
      then show ?thesis
        using Some other
        by (simp add: loadOrCreateTaskAndHistory_def load_def terminalStates_def
            finalStates_def)
    qed
  qed
qed

section \<open>The stream as a whole\<close>

text \<open>
  The streaming callback, for a request id that is not null and a store
  that accepts every save: no exception is left, and behind the claimed events comes the
  failure event when the handler threw before any final event, the forced final event
  when it ended before any final event, and nothing otherwise.
\<close>

lemma callback_accepting:
  assumes "accepting (wld s)"
      and "\<not> lastEventWasFinal s"
      and "state (t_status (task (currentData s))) \<notin> set terminalStates"
  shows "\<exists>s' new.
           streamCallback (Some r) tid steps s = (None, s') \<and>
           sent s' = sent s @ new \<and>
           map (\<lambda>e. eventShape (r_result e)) new =
             claimedEvents (yielded steps) @
             (if list_ex snd (claimedEvents (yielded steps)) then []
              else [(Some (if thrown steps = None then Completed else Failed), True)])"
proof -
  from drain_accepting[OF assms(1), of r tid steps] obtain s1 new where
    dr: "drain (Some r) tid steps s =
           (if list_ex snd (claimedEvents (yielded steps)) then None else thrown steps, s1)"
        "accepting (wld s1)"
        "closed s1 = closed s" "sent s1 = sent s @ new"
        "map (\<lambda>e. eventShape (r_result e)) new = claimedEvents (yielded steps)"
        "new = [] \<longrightarrow> lastEventWasFinal s1 = lastEventWasFinal s"
        "new \<noteq> [] \<longrightarrow> lastEventWasFinal s1 = final (r_result (last new))"
    by blast
  show ?thesis
  proof (cases "list_ex snd (claimedEvents (yielded steps))")
    case True
    then have "\<exists>x. StatusUpdate x \<in> set (yielded steps) \<and> su_state x \<in> set terminalStates"
      by (simp add: claimedEvents_some_final)
    from claimedEvents_final[OF this] have ce: "claimedEvents (yielded steps) \<noteq> []"
      "snd (last (claimedEvents (yielded steps)))" by simp_all
    from ce(1) dr(5) have ne: "new \<noteq> []" by auto
    have "final (r_result (last new)) = snd (last (map (\<lambda>e. eventShape (r_result e)) new))"
      using ne by (simp add: last_map final_eventShape)
    with ce(2) dr(5) have "final (r_result (last new))" by simp
    with dr(7) ne have "lastEventWasFinal s1" by simp
    with dr(1) True have "tryBlock (Some r) tid steps s = (None, s1)"
      by (simp add: tryBlock_def)
    with dr(3,4,5) True show ?thesis
      by (intro exI[of _ "if \<not> closed s1 then closeStream s1 else s1"] exI[of _ new])
         (simp add: streamCallback_def closeStream_def)
  next
    case False
    then have nofin: "\<forall>x. StatusUpdate x \<in> set (yielded steps) \<longrightarrow>
                        su_state x \<notin> set terminalStates"
      by (simp add: claimedEvents_some_final)
    show ?thesis
    proof (cases "thrown steps")
      case (Some e)
      with dr(1) False have "tryBlock (Some r) tid steps s = (Some e, s1)"
        by (simp add: tryBlock_def)
      moreover from catchBlock_sends[of r tid e s1] obtain s2 where
        cb: "catchBlock (Some r) tid e s1 = (None, s2)"
            "sent s2 = sent s1 @ [\<lparr> r_jsonrpc = ''2.0'', r_id = r,
                                     r_result = TaskStatusUpdateEvent tid
                                                  (t_status (task (currentData s2))) True \<rparr>]"
            "state (t_status (task (currentData s2))) = Failed" "closed s2 = closed s1"
        by blast
      ultimately show ?thesis
        using dr(3,4,5) False Some
        by (intro exI[of _ "if \<not> closed s2 then closeStream s2 else s2"]
              exI[of _ "new @ [\<lparr> r_jsonrpc = ''2.0'', r_id = r,
                                  r_result = TaskStatusUpdateEvent tid
                                               (t_status (task (currentData s2))) True \<rparr>]"])
           (simp add: streamCallback_def closeStream_def eventShape_def)
    next
      case None
      have "\<forall>p\<in>set (map (\<lambda>e. eventShape (r_result e)) new). \<not> snd p"
        using claimedEvents_nonfinal[OF nofin] dr(5) by simp
      then have nonfinal: "\<forall>e\<in>set new. \<not> final (r_result e)"
        by (simp add: final_eventShape)
      have notlast: "\<not> lastEventWasFinal s1"
      proof (cases "new = []")
        case True
        then show ?thesis using dr(6) assms(2) by simp
      next
        case False
        then have "last new \<in> set new" by simp
        then show ?thesis using dr(7) False nonfinal by simp
      qed
      have st1: "state (t_status (task (currentData s1))) \<notin> set terminalStates"
        using drain_nonfinal[OF assms(1) nofin assms(3), of r tid] dr(1) by simp
      let ?d = "applyUpdateToTaskAndHistory (clock (wld s1) (reads (wld s1))) (currentData s1)
                    (StatusUpdate \<lparr> su_state = Completed, su_message = Absent,
                                    su_timestamp = None \<rparr>)"
      let ?w = "snd (save ((wld s1) \<lparr> reads := Suc (reads (wld s1)) \<rparr>) ?d)"
      let ?e = "\<lparr> r_jsonrpc = ''2.0'', r_id = r,
                  r_result = TaskStatusUpdateEvent tid (t_status (task ?d)) True \<rparr>"
      let ?s2 = "sendEvent ?e (awaited (s1 \<lparr> currentData := ?d, wld := ?w \<rparr>))"
      have ff: "forceFinal (Some r) tid s1 = (None, ?s2)"
        using forceFinal_accepting[OF dr(2) st1, of r tid] by (simp add: Let_def)
      have tb: "tryBlock (Some r) tid steps s = (None, ?s2)"
        using dr(1) False None notlast ff by (simp add: tryBlock_def)
      have "eventShape (r_result ?e) = (Some Completed, True)"
        by (simp add: eventShape_def apply_status_fields)
      with tb dr(3,4,5) False None show ?thesis
        by (intro exI[of _ "if \<not> closed ?s2 then closeStream ?s2 else ?s2"]
              exI[of _ "new @ [?e]"])
           (simp add: streamCallback_def closeStream_def)
    qed
  qed
qed

text \<open>
  Claim C6, as the code has it. In \<open>taskSendSubscribe\<close>, for a request whose id is not
  null and a store that accepts every save, whatever the handler does: the streaming
  callback ends without an exception, and the events handed to \<open>sendEvent\<close> are, in order,
  one status event for every status update the handler yields, carrying the state after
  the update and final if and only if that state is completed, failed, canceled or
  input-required, and one artifact event with final false for every artifact update, up to
  and including the first final event; when none of them is final, one more final event
  follows, for the handler's failure if it threw and the forced one if it ended. And
  for every request and every store, the loop is left right after a status update whose
  state is one of the four: what the handler would do after it (yield, throw or end) is
  never drained, and changes neither the events, nor the task, nor the store.
  Whether an event handed to \<open>sendEvent\<close> reaches the client is not part of this claim.
\<close>

theorem streamed_events:
  "(accepting w \<longrightarrow>
      (\<exists>s'. taskSendSubscribe w
                \<lparr> req_id = Some r,
                  req_params = \<lparr> p_id = Some taskId, p_message = Some msg, p_sessionId = sid,
                                 p_metadata = md \<rparr> \<rparr>
                steps = (Inr (None, s'), wld s') \<and>
             map (\<lambda>e. eventShape (r_result e)) (sent s') =
               claimedEvents (yielded steps) @
               (if list_ex snd (claimedEvents (yielded steps)) then []
                else [(Some (if thrown steps = None then Completed else Failed), True)]))) \<and>
   (su_state x \<in> set terminalStates \<longrightarrow>
      taskSendSubscribe w' req (pre @ Yield (StatusUpdate x) # rest) =
      taskSendSubscribe w' req (pre @ [Yield (StatusUpdate x)]))"
proof (intro conjI impI)
  assume acc: "accepting w"
  from loadOrCreate_accepting[OF acc, of taskId msg sid md] obtain data w1 where
    lc: "loadOrCreateTaskAndHistory w taskId msg sid md = (Inr data, w1)"
        "accepting w1" "state (t_status (task data)) \<notin> set terminalStates"
    by blast
  let ?s0 = "\<lparr> currentData = data, lastEventWasFinal = False, sent = [], pending = [],
               written = [], closed = False, wld = w1 \<rparr>"
  have "accepting (wld ?s0)" "\<not> lastEventWasFinal ?s0"
       "state (t_status (task (currentData ?s0))) \<notin> set terminalStates"
    using lc(2,3) by simp_all
  from callback_accepting[OF this, of r taskId steps] obtain s1 new where
    cb: "streamCallback (Some r) taskId steps ?s0 = (None, s1)"
        "sent s1 = sent ?s0 @ new"
        "map (\<lambda>e. eventShape (r_result e)) new =
           claimedEvents (yielded steps) @
           (if list_ex snd (claimedEvents (yielded steps)) then []
            else [(Some (if thrown steps = None then Completed else Failed), True)])"
    by blast
  have "taskSendSubscribe w
        \<lparr> req_id = Some r,
          req_params = \<lparr> p_id = Some taskId, p_message = Some msg, p_sessionId = sid,
                         p_metadata = md \<rparr> \<rparr>
        steps = (Inr (None, s1), wld s1)"
    using lc(1) cb(1)
    by (simp add: taskSendSubscribe_def validateTaskSendParams_def)
  with cb(2,3)
  show "\<exists>s'. taskSendSubscribe w
                \<lparr> req_id = Some r,
                  req_params = \<lparr> p_id = Some taskId, p_message = Some msg, p_sessionId = sid,
                                 p_metadata = md \<rparr> \<rparr>
                steps = (Inr (None, s'), wld s') \<and>
             map (\<lambda>e. eventShape (r_result e)) (sent s') =
               claimedEvents (yielded steps) @
               (if list_ex snd (claimedEvents (yielded steps)) then []
                else [(Some (if thrown steps = None then Completed else Failed), True)])"
    by (intro exI[of _ s1]) simp
next
  assume fin: "su_state x \<in> set terminalStates"
  have eq: "\<And>rid tid s. streamCallback rid tid (pre @ Yield (StatusUpdate x) # rest) s =
                       streamCallback rid tid (pre @ [Yield (StatusUpdate x)]) s"
    by (simp add: streamCallback_def tryBlock_def
        drain_stop[OF fin, where pre = pre and rest = rest])
  show "taskSendSubscribe w' req (pre @ Yield (StatusUpdate x) # rest) =
        taskSendSubscribe w' req (pre @ [Yield (StatusUpdate x)])"
    unfolding taskSendSubscribe_def eq by (rule refl)
qed

theorem streamed_events_witness:
  "(\<exists>s'.
     taskSendSubscribe (exWorld [] []) (exRequest (Some (IdNumber 7)))
        [Yield (exStatus Working), Yield (ArtifactUpdate (exArtifact (Present 0) ''out'')),
         Yield UnknownUpdate, Yield (exStatus InputRequired), Yield (exStatus Working)]
       = (Inr (None, s'), wld s') \<and>
     map (\<lambda>e. eventShape (r_result e)) (sent s') =
       [(Some Working, False), (None, False), (Some InputRequired, True)]) \<and>
   taskSendSubscribe (exWorld [] []) (exRequest (Some (IdNumber 7)))
        [Yield (exStatus Working), Yield (exStatus InputRequired), Yield (exStatus Working),
         Throw (OtherError ''late'')] =
   taskSendSubscribe (exWorld [] []) (exRequest (Some (IdNumber 7)))
        [Yield (exStatus Working), Yield (exStatus InputRequired)]"
proof -
  have h: "accepting (exWorld [] [])"
    by (simp add: exWorld_def accepting_def)
  have t: "su_state \<lparr> su_state = InputRequired, su_message = Absent, su_timestamp = None \<rparr>
             \<in> set terminalStates"
    by (simp add: terminalStates_def)
  from streamed_events
    [where w = "exWorld [] []" and r = "IdNumber 7" and taskId = "''t1''"
       and msg = "exMessage User ''start''" and sid = None and md = None
       and steps = "[Yield (exStatus Working),
                     Yield (ArtifactUpdate (exArtifact (Present 0) ''out'')),
                     Yield UnknownUpdate, Yield (exStatus InputRequired),
                     Yield (exStatus Working)]"
       and x = "\<lparr> su_state = InputRequired, su_message = Absent, su_timestamp = None \<rparr>"
       and w' = "exWorld [] []" and req = "exRequest (Some (IdNumber 7))"
       and pre = "[Yield (exStatus Working)]"
       and rest = "[Yield (exStatus Working), Throw (OtherError ''late'')]"]
    h t
  show ?thesis
    by (simp add: exRequest_def exStatus_def terminalStates_def)
qed

text \<open>
  Claim C6 as stated fails for a request whose id is null: the handler yields a status
  update and no event is handed to \<open>sendEvent\<close>, since the response around the event
  cannot be built; the exception leaves the streaming callback.
\<close>

theorem streamed_events_null_id_counterexample:
  "(case fst (taskSendSubscribe (exWorld [] []) (exRequest None) [Yield (exStatus Working)]) of
      Inl _ \<Rightarrow> False
    | Inr (exn, s') \<Rightarrow>
        exn = Some (internalError ''Cannot create a success response with a null ID'') \<and>
        sent s' = [])"
  by (simp add: taskSendSubscribe_def validateTaskSendParams_def exRequest_def exWorld_def
      exStatus_def exMessage_def loadOrCreateTaskAndHistory_def load_def
      getCurrentTimestamp_def save_def streamCallback_def tryBlock_def catchBlock_def
      drain.simps
      applyUpdateNow_status isTaskStatusUpdate_def createSuccessResponse_def
      createTaskStatusEvent_def createTaskFailureStatusUpdate_def apply_status_fields Let_def
      terminalStates_def closeStream_def)

section \<open>Forced finalization\<close>

text \<open>
  Claim C7, at the code. In \<open>taskSendSubscribe\<close>, for a request whose id is not null and
  a store that accepts every save, when the handler's sequence of updates ends and none of
  its status updates had the state completed, failed, canceled or input-required (so that
  no final event has been handed to \<open>sendEvent\<close>), the engine forces the end: the task's
  state is none of these four, a transition to completed is applied and saved, and one
  final status event carrying the status the task ends in is handed to \<open>sendEvent\<close>, the
  last event and the only final one. But \<open>sendEvent\<close> is not awaited, and the
  \<open>finally\<close> block closes the stream in the same turn: the events written to the stream
  are the earlier ones alone, and the forced final event is still pending when the stream
  is closed. It is never written.
\<close>

theorem forced_final_event_not_written:
  assumes "accepting w"
      and "\<forall>x. StatusUpdate x \<in> set us \<longrightarrow> su_state x \<notin> set terminalStates"
  shows "\<exists>s' front fin.
     taskSendSubscribe w
        \<lparr> req_id = Some r,
          req_params = \<lparr> p_id = Some taskId, p_message = Some msg, p_sessionId = sid,
                         p_metadata = md \<rparr> \<rparr>
        (map Yield us) = (Inr (None, s'), wld s') \<and>
     state (t_status (task (currentData s'))) = Completed \<and>
     tasks (wld s') (t_id (task (currentData s'))) = Some (currentData s') \<and>
     fin = \<lparr> r_jsonrpc = ''2.0'', r_id = r,
             r_result = TaskStatusUpdateEvent taskId (t_status (task (currentData s'))) True \<rparr> \<and>
     sent s' = front @ [fin] \<and>
     (\<forall>e\<in>set front. \<not> final (r_result e)) \<and>
     written s' = front \<and>
     pending s' = [fin] \<and>
     closed s'"
proof -
  from loadOrCreate_accepting[OF assms(1), of taskId msg sid md] obtain data w1 where
    lc: "loadOrCreateTaskAndHistory w taskId msg sid md = (Inr data, w1)"
        "accepting w1" "state (t_status (task data)) \<notin> set terminalStates"
    by blast
  let ?s0 = "\<lparr> currentData = data, lastEventWasFinal = False, sent = [], pending = [],
               written = [], closed = False, wld = w1 \<rparr>"
  have acc0: "accepting (wld ?s0)" using lc(2) by simp
  have nofin: "\<forall>x. StatusUpdate x \<in> set (yielded (map Yield us)) \<longrightarrow>
                 su_state x \<notin> set terminalStates"
    using assms(2) by simp
  then have noce: "\<not> list_ex snd (claimedEvents (yielded (map Yield us)))"
    by (simp add: claimedEvents_some_final)
  from drain_accepting[OF acc0, of r taskId "map Yield us"] noce obtain s1 new where
    dr: "drain (Some r) taskId (map Yield us) ?s0 = (None, s1)" "accepting (wld s1)"
        "closed s1 = closed ?s0" "sent s1 = sent ?s0 @ new"
        "map (\<lambda>e. eventShape (r_result e)) new = claimedEvents (yielded (map Yield us))"
        "new = [] \<longrightarrow> lastEventWasFinal s1 = lastEventWasFinal ?s0"
        "new \<noteq> [] \<longrightarrow> lastEventWasFinal s1 = final (r_result (last new))"
    by auto
  have "\<forall>p\<in>set (map (\<lambda>e. eventShape (r_result e)) new). \<not> snd p"
    using claimedEvents_nonfinal[OF nofin] dr(5) by simp
  then have nonfinal: "\<forall>e\<in>set new. \<not> final (r_result e)"
    by (simp add: final_eventShape)
  have notlast: "\<not> lastEventWasFinal s1"
  proof (cases "new = []")
    case True
    then show ?thesis using dr(6) by simp
  next
    case False
    then have "last new \<in> set new" by simp
    then show ?thesis using dr(7) False nonfinal by simp
  qed
  have st1: "state (t_status (task (currentData s1))) \<notin> set terminalStates"
    using drain_nonfinal[OF acc0 nofin, of r taskId] lc(3) dr(1) by simp
  have fl: "pending s1 = []" "written s1 = sent s1"
    using drain_flushed[OF acc0 nofin, of r taskId] dr(1) by simp_all
  have open1: "\<not> closed s1" using dr(3) by simp
  let ?d = "applyUpdateToTaskAndHistory (clock (wld s1) (reads (wld s1))) (currentData s1)
                (StatusUpdate \<lparr> su_state = Completed, su_message = Absent,
                                su_timestamp = None \<rparr>)"
  let ?w = "snd (save ((wld s1) \<lparr> reads := Suc (reads (wld s1)) \<rparr>) ?d)"
  let ?e = "\<lparr> r_jsonrpc = ''2.0'', r_id = r,
              r_result = TaskStatusUpdateEvent taskId (t_status (task ?d)) True \<rparr>"
  let ?s2 = "sendEvent ?e (awaited (s1 \<lparr> currentData := ?d, wld := ?w \<rparr>))"
  have ff: "forceFinal (Some r) taskId s1 = (None, ?s2)"
    using forceFinal_accepting[OF dr(2) st1, of r taskId] by (simp add: Let_def)
  have tb: "tryBlock (Some r) taskId (map Yield us) ?s0 = (None, ?s2)"
    using dr(1) notlast ff by (simp add: tryBlock_def)
  have cb: "streamCallback (Some r) taskId (map Yield us) ?s0 = (None, closeStream ?s2)"
    using tb open1 by (simp add: streamCallback_def)
  have run: "taskSendSubscribe w
        \<lparr> req_id = Some r,
          req_params = \<lparr> p_id = Some taskId, p_message = Some msg, p_sessionId = sid,
                         p_metadata = md \<rparr> \<rparr>
        (map Yield us) = (Inr (None, closeStream ?s2), wld (closeStream ?s2))"
    using lc(1) cb by (simp add: taskSendSubscribe_def validateTaskSendParams_def)
  have stored: "tasks ?w (t_id (task ?d)) = Some ?d"
    using dr(2) by (simp add: tasks_reads_save)
  have pw: "pending ?s2 = [?e]" "written ?s2 = new"
    using fl open1 dr(4) by (simp_all add: awaited_open)
  show ?thesis
    using run nonfinal dr(4) stored pw
    by (intro exI[of _ "closeStream ?s2"] exI[of _ new] exI[of _ ?e])
       (simp add: closeStream_def apply_status_fields)
qed

text \<open>
  The witness is P9 of the specification: a handler that yields only a working status
  and ends. Two events are handed to \<open>sendEvent\<close>, the working status, not final, and the
  completed status, final; the first is written, the second is pending when the stream is
  closed.
\<close>

theorem forced_final_event_not_written_witness:
  "\<exists>s'.
     taskSendSubscribe (exWorld [] []) (exRequest (Some (IdNumber 7)))
        [Yield (exStatus Working)] = (Inr (None, s'), wld s') \<and>
     state (t_status (task (currentData s'))) = Completed \<and>
     tasks (wld s') (t_id (task (currentData s'))) = Some (currentData s') \<and>
     map (\<lambda>e. eventShape (r_result e)) (sent s') =
       [(Some Working, False), (Some Completed, True)] \<and>
     map (\<lambda>e. eventShape (r_result e)) (written s') = [(Some Working, False)] \<and>
     map (\<lambda>e. eventShape (r_result e)) (pending s') = [(Some Completed, True)] \<and>
     closed s'"
proof -
  have h1: "accepting (exWorld [] [])"
    by (simp add: accepting_def exWorld_def)
  have h2: "\<forall>x. StatusUpdate x \<in> set [exStatus Working] \<longrightarrow>
              su_state x \<notin> set terminalStates"
    by (auto simp: exStatus_def terminalStates_def)
  have ev: "(case fst (taskSendSubscribe (exWorld [] []) (exRequest (Some (IdNumber 7)))
                        [Yield (exStatus Working)]) of
               Inl _ \<Rightarrow> []
             | Inr (exn, s) \<Rightarrow> map (\<lambda>e. eventShape (r_result e)) (sent s)) =
            [(Some Working, False), (Some Completed, True)]"
    by (simp add: taskSendSubscribe_def validateTaskSendParams_def exRequest_def exWorld_def
        exStatus_def exMessage_def loadOrCreateTaskAndHistory_def load_def
        getCurrentTimestamp_def save_def streamCallback_def tryBlock_def forceFinal_def
        drain.simps applyUpdateNow_status isTaskStatusUpdate_def createSuccessResponse_def
        createTaskStatusEvent_def apply_status_fields Let_def terminalStates_def
        eventShape_def closeStream_def)
  from forced_final_event_not_written [OF h1 h2, of "IdNumber 7" "''t1''"
      "exMessage User ''start''" None None]
  obtain s' front fin where
    r: "taskSendSubscribe (exWorld [] []) (exRequest (Some (IdNumber 7)))
          [Yield (exStatus Working)] = (Inr (None, s'), wld s')"
       "state (t_status (task (currentData s'))) = Completed"
       "tasks (wld s') (t_id (task (currentData s'))) = Some (currentData s')"
       "fin = \<lparr> r_jsonrpc = ''2.0'', r_id = IdNumber 7,
               r_result = TaskStatusUpdateEvent ''t1''
                            (t_status (task (currentData s'))) True \<rparr>"
       "sent s' = front @ [fin]"
       "written s' = front" "pending s' = [fin]" "closed s'"
    by (auto simp: exRequest_def)
  from ev r(1) have sh: "map (\<lambda>e. eventShape (r_result e)) (sent s') =
                       [(Some Working, False), (Some Completed, True)]"
    by simp
  with r(5) have "map (\<lambda>e. eventShape (r_result e)) front = [(Some Working, False)]"
    "eventShape (r_result fin) = (Some Completed, True)"
    by simp_all
  with r sh show ?thesis
    by (intro exI[of _ s'] conjI) simp_all
qed

text \<open>
  For a request whose id is null the forced final event is not even handed to
  \<open>sendEvent\<close>: the handler's sequence is exhausted, here at once; the transition to
  completed is applied and saved, but the final event cannot be wrapped in a response, so
  the failure path runs, the task ends failed, and no event at all is handed over.
\<close>

lemma forced_finalization_null_id:
  "(case fst (taskSendSubscribe (exWorld [] []) (exRequest None) []) of
      Inl _ \<Rightarrow> False
    | Inr (exn, s') \<Rightarrow>
        exn = Some (internalError ''Cannot create a success response with a null ID'') \<and>
        sent s' = [] \<and>
        state (t_status (task (currentData s'))) = Failed)"
  by (simp add: taskSendSubscribe_def validateTaskSendParams_def exRequest_def exWorld_def
      exMessage_def loadOrCreateTaskAndHistory_def load_def getCurrentTimestamp_def save_def
      streamCallback_def tryBlock_def forceFinal_def catchBlock_def drain.simps
      applyUpdateNow_status createSuccessResponse_def createTaskStatusEvent_def
      createTaskFailureStatusUpdate_def apply_status_fields Let_def terminalStates_def
      closeStream_def)

text \<open>
  The final event of the loop and that of the \<open>catch\<close> block go the same way: each is
  handed to \<open>sendEvent\<close> and is pending when the stream is closed. Here the handler
  yields a working status and an input-required status, and there it throws at once.
\<close>

lemma final_event_of_loop_not_written:
  "(case fst (taskSendSubscribe (exWorld [] []) (exRequest (Some (IdNumber 7)))
                [Yield (exStatus Working), Yield (exStatus InputRequired)]) of
      Inl _ \<Rightarrow> False
    | Inr (exn, s') \<Rightarrow>
        exn = None \<and> closed s' \<and>
        map (\<lambda>e. eventShape (r_result e)) (sent s') =
          [(Some Working, False), (Some InputRequired, True)] \<and>
        map (\<lambda>e. eventShape (r_result e)) (written s') = [(Some Working, False)] \<and>
        map (\<lambda>e. eventShape (r_result e)) (pending s') = [(Some InputRequired, True)])"
  by (simp add: taskSendSubscribe_def validateTaskSendParams_def exRequest_def exWorld_def
      exStatus_def exMessage_def loadOrCreateTaskAndHistory_def load_def
      getCurrentTimestamp_def save_def streamCallback_def tryBlock_def drain.simps
      applyUpdateNow_status isTaskStatusUpdate_def createSuccessResponse_def
      createTaskStatusEvent_def apply_status_fields Let_def terminalStates_def
      eventShape_def closeStream_def awaited_def sendEvent_def)

lemma final_event_of_catch_not_written:
  "(case fst (taskSendSubscribe (exWorld [] []) (exRequest (Some (IdNumber 7)))
                [Throw (OtherError ''boom'')]) of
      Inl _ \<Rightarrow> False
    | Inr (exn, s') \<Rightarrow>
        exn = None \<and> closed s' \<and>
        map (\<lambda>e. eventShape (r_result e)) (sent s') = [(Some Failed, True)] \<and>
        written s' = [] \<and>
        map (\<lambda>e. eventShape (r_result e)) (pending s') = [(Some Failed, True)])"
  by (simp add: taskSendSubscribe_def validateTaskSendParams_def exRequest_def exWorld_def
      exMessage_def loadOrCreateTaskAndHistory_def load_def
      getCurrentTimestamp_def save_def streamCallback_def tryBlock_def catchBlock_def
      drain.simps applyUpdateNow_status createTaskFailureStatusUpdate_def
      createSuccessResponse_def createTaskStatusEvent_def apply_status_fields Let_def
      terminalStates_def eventShape_def closeStream_def awaited_def sendEvent_def)

end
